theory Spec2Isabelle
  imports Complex_Main "HOL-Library.Multiset"
begin

section \<open>Data model\<close>

text \<open>
  The simulator's numbers are JavaScript numbers. Quantities that the code only ever
  counts (cycles, program counter, instruction identities, parsed immediates, latencies,
  cache tags) are integers; register contents, operand values, results, addresses and
  memory words are rationals with exact arithmetic. Rounding, NaN and the infinities of
  IEEE doubles are outside the model; the only NaN the engine creates (the result of a
  STORE or BRANCH) is overwritten by null before the station is stored back.
\<close>

type_synonym num = rat

datatype OpType = LOAD | STORE | ADD | SUB | MULT | DIV | INTEGER | BRANCH

datatype RSType = RS_ADD | RS_MULT | RS_LOAD | RS_STORE | RS_INTEGER

record InstructionLine =
  inst_id :: int
  raw :: string
  op :: string
  dest :: string
  src1 :: string
  src2 :: string
  immediate :: int
  pcAddress :: int
  issueCycle :: "int option"
  execStartCycle :: "int option"
  execEndCycle :: "int option"
  writeCycle :: "int option"

record ReservationStation =
  rs_id :: string
  rs_type :: RSType
  busy :: bool
  rs_op :: "string option"
  vj :: "num option"
  vk :: "num option"
  qj :: "string option"
  qk :: "string option"
  rs_a :: "num option"
  instId :: "int option"
  timeLeft :: int
  result :: "num option"

record Register =
  reg_name :: string
  reg_value :: num
  qi :: "string option"

record CacheBlock =
  tag :: int
  valid :: bool
  cb_data :: "num list"
  lastAccess :: int

record CacheConfig =
  enabled :: bool
  blockSize :: int
  cacheSize :: int
  missPenalty :: int

record SystemConfig =
  rsSizes :: "RSType \<Rightarrow> nat"
  latencies :: "OpType \<Rightarrow> int"
  cache_cfg :: CacheConfig

text \<open>
  The log holds interpolated strings in the source; the model keeps the interpolated
  data of each message instead of its rendering.
\<close>

datatype LogEntry =
    LogInitialized
  | LogBroadcast int string num
  | LogCacheMiss int string num
  | LogBranchTaken int string
  | LogAllCompleted

text \<open>
  The register file is a JavaScript object, iterated in insertion order: an association
  list from names to registers. Memory and the label table are only looked up and
  updated by key: maps of the properties that were stored. The engine's lookups
  \<open>registers[name]\<close> and \<open>labels[name]\<close> are modelled on these own properties; a
  name that every JavaScript object inherits (\<open>constructor\<close>, \<open>toString\<close>, \<open>__proto__\<close>)
  is outside the model of the engine. The parser's writes to the label table and its
  calls of \<open>hasOwnProperty\<close> are modelled in full in the parser section.
\<close>

record SimulationState =
  cycle :: int
  pc :: int
  instructions :: "InstructionLine list"
  reservationStations :: "ReservationStation list"
  registers :: "(string \<times> Register) list"
  memory :: "num \<rightharpoonup> num"
  cache :: "CacheBlock list"
  cdb :: "(string \<times> num) option"
  log_entries :: "LogEntry list"
  isFinished :: bool
  branchStall :: bool

section \<open>Helpers\<close>

text \<open>\<open>Array.prototype.findIndex\<close>: the position of the first element that satisfies
  the predicate; JavaScript's \<open>-1\<close> is \<open>None\<close>.\<close>

fun findIndex :: "('a \<Rightarrow> bool) \<Rightarrow> 'a list \<Rightarrow> nat option" where
  "findIndex P [] = None"
| "findIndex P (x # xs) = (if P x then Some 0 else map_option Suc (findIndex P xs))"

text \<open>\<open>String.prototype.toUpperCase\<close> on ASCII text.\<close>

definition upper_char :: "char \<Rightarrow> char" where
  "upper_char c =
     (let n = (of_char c :: nat) in if 97 \<le> n \<and> n \<le> 122 then char_of (n - 32) else c)"

definition toUpperCase :: "string \<Rightarrow> string" where
  "toUpperCase s = map upper_char s"

fun startsWith :: "string \<Rightarrow> string \<Rightarrow> bool" where
  "startsWith s [] = True"
| "startsWith [] (p # ps) = False"
| "startsWith (c # cs) (p # ps) = (c = p \<and> startsWith cs ps)"

fun includes_str :: "string \<Rightarrow> string \<Rightarrow> bool" where
  "includes_str [] p = (p = [])"
| "includes_str (c # cs) p = (startsWith (c # cs) p \<or> includes_str cs p)"

definition getOpType :: "string \<Rightarrow> OpType" where
  "getOpType op0 =
     (let opu = toUpperCase op0 in
      if opu \<in> set [''L.D'', ''LW'', ''LD'', ''L.S''] then LOAD
      else if opu \<in> set [''S.D'', ''SW'', ''SD'', ''S.S''] then STORE
      else if opu \<in> set [''ADD.D'', ''ADD.S''] then ADD
      else if opu \<in> set [''SUB.D'', ''SUB.S''] then SUB
      else if opu \<in> set [''MUL'', ''MUL.D'', ''MUL.S''] then MULT
      else if opu \<in> set [''DIV'', ''DIV.D'', ''DIV.S''] then DIV
      else if opu \<in> set [''ADD'', ''ADDI'', ''DADDI'', ''DADD'', ''SUB'', ''SUBI'', ''DSUBI'', ''DSUB'']
        then INTEGER
      else if opu \<in> set [''BNE'', ''BEQ'', ''BNEZ'', ''BEQZ''] then BRANCH
      else INTEGER)"

fun getRSType :: "OpType \<Rightarrow> RSType" where
  "getRSType LOAD = RS_LOAD"
| "getRSType STORE = RS_STORE"
| "getRSType MULT = RS_MULT"
| "getRSType DIV = RS_MULT"
| "getRSType ADD = RS_ADD"
| "getRSType SUB = RS_ADD"
| "getRSType INTEGER = RS_INTEGER"
| "getRSType BRANCH = RS_INTEGER"

section \<open>Cache model\<close>

record CacheResult =
  hit :: bool
  penalty :: int
  newCache :: "CacheBlock list"

text \<open>\<open>newCache[0] = newBlock\<close>: JavaScript extends an empty array by the
  assignment.\<close>

fun set_first :: "'a \<Rightarrow> 'a list \<Rightarrow> 'a list" where
  "set_first x [] = [x]"
| "set_first x (y # ys) = x # ys"

text \<open>
  \<open>accessCache\<close>. The comparator of the sort is \<open>a.lastAccess - b.lastAccess\<close> and
  \<open>Array.prototype.sort\<close> is stable: \<open>sort_key lastAccess\<close>. A block size of zero
  makes the quotients non-finite in JavaScript; results about the enabled cache are
  stated for a non-zero block size.
\<close>

definition accessCache :: "num \<Rightarrow> SystemConfig \<Rightarrow> CacheBlock list \<Rightarrow> int \<Rightarrow> CacheResult" where
  "accessCache addr config cache0 cyc =
     (if \<not> enabled (cache_cfg config) then \<lparr>hit = True, penalty = 0, newCache = cache0\<rparr>
      else
        let blockIndex = \<lfloor>addr / of_int (blockSize (cache_cfg config))\<rfloor>;
            tg = blockIndex;
            maxBlocks = (of_int (cacheSize (cache_cfg config)) / of_int (blockSize (cache_cfg config)) :: rat)
        in case findIndex (\<lambda>b. tag b = tg) cache0 of
             Some existingBlockIdx \<Rightarrow>
               \<lparr>hit = True, penalty = 0,
                newCache = cache0[existingBlockIdx := (cache0 ! existingBlockIdx)\<lparr>lastAccess := cyc\<rparr>]\<rparr>
           | None \<Rightarrow>
               let newBlock = \<lparr>tag = tg, valid = True, cb_data = [], lastAccess = cyc\<rparr> in
               if of_nat (length cache0) < maxBlocks
               then \<lparr>hit = False, penalty = missPenalty (cache_cfg config), newCache = cache0 @ [newBlock]\<rparr>
               else \<lparr>hit = False, penalty = missPenalty (cache_cfg config),
                     newCache = set_first newBlock (sort_key lastAccess cache0)\<rparr>)"

section \<open>Initialization\<close>

text \<open>Decimal rendering of the ordinal in a station identity
  (\<open>`${prefix}${i + 1}`\<close>).\<close>

definition digit_char :: "nat \<Rightarrow> char" where
  "digit_char d = char_of (48 + d)"

function string_of_nat :: "nat \<Rightarrow> string" where
  "string_of_nat n =
     (if n < 10 then [digit_char n] else string_of_nat (n div 10) @ [digit_char (n mod 10)])"
  by pat_completeness auto
termination
  by (relation "measure (\<lambda>n. n)") auto

fun rs_prefix :: "RSType \<Rightarrow> string" where
  "rs_prefix RS_ADD = ''A''"
| "rs_prefix RS_MULT = ''M''"
| "rs_prefix RS_LOAD = ''L''"
| "rs_prefix RS_STORE = ''S''"
| "rs_prefix RS_INTEGER = ''I''"

definition emptyRS :: "RSType \<Rightarrow> nat \<Rightarrow> ReservationStation" where
  "emptyRS ty i =
     \<lparr>rs_id = rs_prefix ty @ string_of_nat (i + 1), rs_type = ty, busy = False, rs_op = None,
      vj = None, vk = None, qj = None, qk = None, rs_a = None, instId = None,
      timeLeft = 0, result = None\<rparr>"

text \<open>
  \<open>initializeState\<close>. \<open>initialRegs\<close> is a JavaScript object (names to numbers), given
  here as the list of its entries in key order.
\<close>

definition initializeState ::
  "InstructionLine list \<Rightarrow> SystemConfig \<Rightarrow> (string \<times> num) list \<Rightarrow> SimulationState" where
  "initializeState insts config initialRegs =
     \<lparr>cycle = 0, pc = 0, instructions = insts,
      reservationStations =
        concat (map (\<lambda>ty. map (emptyRS ty) [0..<rsSizes config ty])
                  [RS_ADD, RS_MULT, RS_LOAD, RS_STORE, RS_INTEGER]),
      registers = map (\<lambda>(name, v). (name, \<lparr>reg_name = name, reg_value = v, qi = None\<rparr>)) initialRegs,
      memory = Map.empty, cache = [], cdb = None, log_entries = [LogInitialized],
      isFinished = False, branchStall = False\<rparr>"

section \<open>Cycle engine\<close>

subsection \<open>Phase 1: write result\<close>

definition isReadyToWrite :: "ReservationStation \<Rightarrow> bool" where
  "isReadyToWrite r \<longleftrightarrow> busy r \<and> timeLeft r = 0 \<and> result r \<noteq> None"

text \<open>\<open>instructions.find(i => i.id === rs.instId)\<close>, as the position of the instruction
  found; a null \<open>instId\<close> is strictly equal to no identity.\<close>

definition findInst :: "int option \<Rightarrow> InstructionLine list \<Rightarrow> nat option" where
  "findInst k insts =
     (case k of None \<Rightarrow> None | Some n \<Rightarrow> findIndex (\<lambda>i. inst_id i = n) insts)"

definition broadcastReg :: "string \<Rightarrow> num \<Rightarrow> Register \<Rightarrow> Register" where
  "broadcastReg t v reg = (if qi reg = Some t then reg\<lparr>reg_value := v, qi := None\<rparr> else reg)"

definition broadcastRS :: "string \<Rightarrow> num \<Rightarrow> ReservationStation \<Rightarrow> ReservationStation" where
  "broadcastRS t v rs =
     (if busy rs then
        (let rs1 = (if qj rs = Some t then rs\<lparr>vj := Some v, qj := None\<rparr> else rs)
         in if qk rs1 = Some t then rs1\<lparr>vk := Some v, qk := None\<rparr> else rs1)
      else rs)"

text \<open>The object literal that frees a station: identity, class and \<open>timeLeft\<close> are
  spread from the old station, every other field is reset.\<close>

definition clearRS :: "ReservationStation \<Rightarrow> ReservationStation" where
  "clearRS r = r\<lparr>busy := False, rs_op := None, vj := None, vk := None, qj := None, qk := None,
                 rs_a := None, instId := None, result := None\<rparr>"

text \<open>
  The write-back phase. \<open>readyToWrite[0]\<close> is the first station of the array that passes
  the filter, and \<open>indexOf\<close> finds that very object: its position is the first position
  whose station is ready.
\<close>

definition writeResult :: "SimulationState \<Rightarrow> SimulationState" where
  "writeResult s =
     (case filter isReadyToWrite (reservationStations s) of
        [] \<Rightarrow> s
      | cdbProducer # _ \<Rightarrow>
          let t = rs_id cdbProducer;
              v = the (result cdbProducer);
              insts = (case findInst (instId cdbProducer) (instructions s) of
                         None \<Rightarrow> instructions s
                       | Some k \<Rightarrow> (instructions s)[k := (instructions s ! k)\<lparr>writeCycle := Some (cycle s)\<rparr>]);
              regs = map (\<lambda>(n, reg). (n, broadcastReg t v reg)) (registers s);
              rss = map (broadcastRS t v) (reservationStations s);
              rss' = (case findIndex isReadyToWrite (reservationStations s) of
                        None \<Rightarrow> rss
                      | Some producerIndex \<Rightarrow> rss[producerIndex := clearRS (rss ! producerIndex)])
          in s\<lparr>cdb := Some (t, v),
               log_entries := log_entries s @ [LogBroadcast (cycle s) t v],
               instructions := insts, registers := regs, reservationStations := rss'\<rparr>)"

subsection \<open>Phase 2: execute\<close>

text \<open>\<open>x || 0\<close> on a number or null.\<close>

definition or0 :: "num option \<Rightarrow> num" where
  "or0 x = (case x of None \<Rightarrow> 0 | Some v \<Rightarrow> v)"

definition setTimeLeft :: "nat \<Rightarrow> int \<Rightarrow> SimulationState \<Rightarrow> SimulationState" where
  "setTimeLeft idx t s =
     s\<lparr>reservationStations :=
         (reservationStations s)[idx := (reservationStations s ! idx)\<lparr>timeLeft := t\<rparr>]\<rparr>"

text \<open>Start of execution of the station at \<open>idx\<close>, bound to the instruction at
  position \<open>k\<close>: latency with the cache penalty of a load.\<close>

definition startExecution :: "SystemConfig \<Rightarrow> nat \<Rightarrow> nat \<Rightarrow> SimulationState \<Rightarrow> SimulationState" where
  "startExecution config idx k s =
     (let rs = reservationStations s ! idx; inst = instructions s ! k in
      if execStartCycle inst = None then
        let s1 = s\<lparr>instructions := (instructions s)[k := inst\<lparr>execStartCycle := Some (cycle s)\<rparr>]\<rparr>;
            opType = getOpType (op inst)
        in if opType = LOAD \<or> opType = STORE then
             let effectiveAddr = or0 (rs_a rs) in
             if opType = LOAD then
               let r = accessCache effectiveAddr config (cache s1) (cycle s1);
                   s2 = s1\<lparr>cache := newCache r\<rparr>;
                   latency = latencies config LOAD + (if hit r then 0 else penalty r);
                   s3 = (if \<not> hit r
                         then s2\<lparr>log_entries := log_entries s2 @ [LogCacheMiss (cycle s2) (op inst) effectiveAddr]\<rparr>
                         else s2)
               in setTimeLeft idx latency s3
             else setTimeLeft idx (latencies config STORE) s1
           else setTimeLeft idx (latencies config opType) s1
      else s)"

definition decrementTimer :: "nat \<Rightarrow> SimulationState \<Rightarrow> SimulationState" where
  "decrementTimer idx s =
     (let rs = reservationStations s ! idx in
      if timeLeft rs > 0 then setTimeLeft idx (timeLeft rs - 1) s else s)"

definition isAddOpcode :: "string \<Rightarrow> bool" where
  "isAddOpcode op0 \<longleftrightarrow>
     list_ex (\<lambda>o'. includes_str (toUpperCase op0) o') [''ADD'', ''ADDI'', ''DADDI'', ''ADD.D'', ''ADD.S'']"

text \<open>The branch case of the result switch: the program counter moves to the label
  when the branch is taken and the label is bound; the stall is released.\<close>

definition resolveBranch ::
  "(string \<rightharpoonup> int) \<Rightarrow> InstructionLine \<Rightarrow> num \<Rightarrow> num \<Rightarrow> SimulationState \<Rightarrow> SimulationState" where
  "resolveBranch labels inst v1 v2 s =
     (let isBNE = startsWith (toUpperCase (op inst)) ''BNE'';
          isBEQ = startsWith (toUpperCase (op inst)) ''BEQ'';
          taken = ((isBNE \<and> v1 \<noteq> v2) \<or> (isBEQ \<and> v1 = v2));
          s1 = (if taken then
                  (let targetLabel = src2 inst in
                   case labels targetLabel of
                     Some target \<Rightarrow>
                       s\<lparr>pc := target,
                         log_entries := log_entries s @ [LogBranchTaken (cycle s) targetLabel]\<rparr>
                   | None \<Rightarrow> s)
                else s)
      in s1\<lparr>branchStall := False\<rparr>)"

text \<open>End of execution: the result of the functional unit. A STORE writes memory, a
  BRANCH resolves; both retire at once and free their station without a result.\<close>

definition finishExecution ::
  "(string \<rightharpoonup> int) \<Rightarrow> nat \<Rightarrow> nat \<Rightarrow> SimulationState \<Rightarrow> SimulationState" where
  "finishExecution labels idx k s =
     (let rs = reservationStations s ! idx; inst = instructions s ! k in
      if timeLeft rs = 0 \<and> execEndCycle inst = None then
        let s1 = s\<lparr>instructions := (instructions s)[k := inst\<lparr>execEndCycle := Some (cycle s)\<rparr>]\<rparr>;
            opType = getOpType (op inst);
            v1 = or0 (vj rs);
            v2 = or0 (vk rs)
        in if opType = STORE \<or> opType = BRANCH then
             let s2 = (if opType = STORE
                       then s1\<lparr>memory := (memory s1)(or0 (rs_a rs) \<mapsto> or0 (vk rs))\<rparr>
                       else resolveBranch labels inst v1 v2 s1)
             in s2\<lparr>instructions :=
                      (instructions s2)[k := (instructions s2 ! k)\<lparr>writeCycle := Some (cycle s2)\<rparr>],
                    reservationStations := (reservationStations s2)[idx := clearRS rs]\<rparr>
           else
             let res = (case opType of
                          ADD \<Rightarrow> if isAddOpcode (op inst) then v1 + v2 else v1 - v2
                        | INTEGER \<Rightarrow> if isAddOpcode (op inst) then v1 + v2 else v1 - v2
                        | SUB \<Rightarrow> v1 - v2
                        | MULT \<Rightarrow> v1 * v2
                        | DIV \<Rightarrow> if v2 \<noteq> 0 then v1 / v2 else 0
                        | LOAD \<Rightarrow> (case memory s1 (or0 (rs_a rs)) of None \<Rightarrow> 0 | Some w \<Rightarrow> w)
                        | _ \<Rightarrow> 0)
             in s1\<lparr>reservationStations := (reservationStations s1)[idx := rs\<lparr>result := Some res\<rparr>]\<rparr>
      else s)"

text \<open>The body of the \<open>forEach\<close> over the stations, for the station at \<open>idx\<close>.\<close>

definition executeRS ::
  "SystemConfig \<Rightarrow> (string \<rightharpoonup> int) \<Rightarrow> nat \<Rightarrow> SimulationState \<Rightarrow> SimulationState" where
  "executeRS config labels idx s =
     (let rs = reservationStations s ! idx in
      if \<not> busy rs then s
      else if qj rs = None \<and> qk rs = None then
        (case findInst (instId rs) (instructions s) of
           None \<Rightarrow> s
         | Some k \<Rightarrow> finishExecution labels idx k (decrementTimer idx (startExecution config idx k s)))
      else s)"

definition execute :: "SystemConfig \<Rightarrow> (string \<rightharpoonup> int) \<Rightarrow> SimulationState \<Rightarrow> SimulationState" where
  "execute config labels s =
     fold (executeRS config labels) [0..<length (reservationStations s)] s"

subsection \<open>Phase 3: issue\<close>

text \<open>
  Selection of the instruction to issue, with the dynamic loop handling: when no
  un-issued instruction stands at the program counter, the first instruction of the list
  at that address is the template of a new instance. The result is the state (with the
  instance appended) and the position of \<open>issueInst\<close> in its instruction list.
\<close>

definition maxId :: "InstructionLine list \<Rightarrow> int" where
  "maxId insts = foldl (\<lambda>m i. max m (inst_id i)) 0 insts"

definition selectIssue :: "SimulationState \<Rightarrow> SimulationState \<times> nat option" where
  "selectIssue s =
     (case findIndex (\<lambda>i. pcAddress i = pc s \<and> issueCycle i = None) (instructions s) of
        Some k \<Rightarrow> (s, Some k)
      | None \<Rightarrow>
          (case findIndex (\<lambda>i. pcAddress i = pc s) (instructions s) of
             None \<Rightarrow> (s, None)
           | Some t \<Rightarrow>
               let template = instructions s ! t;
                   newInst = template\<lparr>inst_id := maxId (instructions s) + 1, issueCycle := None,
                                      execStartCycle := None, execEndCycle := None, writeCycle := None\<rparr>
               in (s\<lparr>instructions := instructions s @ [newInst]\<rparr>, Some (length (instructions s)))))"

text \<open>Effective address of a LOAD or STORE at issue: the address (null while the
  base register is awaited) and the stall flag.\<close>

definition resolveAddress :: "SimulationState \<Rightarrow> InstructionLine \<Rightarrow> num option \<times> bool" where
  "resolveAddress s issueInst =
     (let baseReg = src1 issueInst; offset = immediate issueInst in
      case map_of (registers s) baseReg of
        Some r \<Rightarrow>
          (case qi r of
             Some t \<Rightarrow>
               (case cdb s of
                  Some (ct, cv) \<Rightarrow> if ct = t then (Some (cv + of_int offset), False) else (None, True)
                | None \<Rightarrow> (None, True))
           | None \<Rightarrow> (Some (reg_value r + of_int offset), False))
      | None \<Rightarrow> (Some (0 + of_int offset), False))"

text \<open>The body of the loop over the stations that checks load/store ordering against
  one station.\<close>

definition memoryHazard ::
  "SimulationState \<Rightarrow> InstructionLine \<Rightarrow> OpType \<Rightarrow> num option \<Rightarrow> ReservationStation \<Rightarrow> bool" where
  "memoryHazard s issueInst opType effectiveAddr checkRS =
     (if busy checkRS \<and> instId checkRS \<noteq> None \<and> the (instId checkRS) < inst_id issueInst then
        if rs_a checkRS = effectiveAddr then
          (let checkOp = (case findInst (instId checkRS) (instructions s) of
                            Some c \<Rightarrow> getOpType (op (instructions s ! c))
                          | None \<Rightarrow> INTEGER)
           in (opType = LOAD \<and> checkOp = STORE) \<or>
              (opType = STORE \<and> (checkOp = LOAD \<or> checkOp = STORE)))
        else False
      else False)"

definition checkMemoryHazards ::
  "SimulationState \<Rightarrow> InstructionLine \<Rightarrow> OpType \<Rightarrow> num option \<Rightarrow> bool" where
  "checkMemoryHazards s issueInst opType effectiveAddr =
     fold (\<lambda>checkRS stallIssue. if memoryHazard s issueInst opType effectiveAddr checkRS then True else stallIssue)
       (reservationStations s) False"

text \<open>Step 3a: address and hazard check; the effective address and \<open>stallIssue\<close>.\<close>

definition addressHazardCheck ::
  "SimulationState \<Rightarrow> InstructionLine \<Rightarrow> num option \<times> bool" where
  "addressHazardCheck s issueInst =
     (let opType = getOpType (op issueInst) in
      if opType = LOAD \<or> opType = STORE then
        (case resolveAddress s issueInst of
           (effectiveAddr, True) \<Rightarrow> (effectiveAddr, True)
         | (effectiveAddr, False) \<Rightarrow>
             (effectiveAddr, checkMemoryHazards s issueInst opType effectiveAddr))
      else (None, False))"

text \<open>\<open>resolveOperand\<close>: the value or the tag of a register, snatching the value from
  the bus when it broadcasts the tag. The test \<open>if (registers[regName].qi)\<close> takes an
  empty tag as absent.\<close>

definition resolveOperand :: "SimulationState \<Rightarrow> string \<Rightarrow> num option \<times> string option" where
  "resolveOperand s regName =
     (case map_of (registers s) regName of
        None \<Rightarrow> (Some 0, None)
      | Some r \<Rightarrow>
          (case qi r of
             Some t \<Rightarrow>
               if t \<noteq> [] then
                 (case cdb s of
                    Some (ct, cv) \<Rightarrow> if ct = t then (Some cv, None) else (None, Some t)
                  | None \<Rightarrow> (None, Some t))
               else (Some (reg_value r), None)
           | None \<Rightarrow> (Some (reg_value r), None)))"

text \<open>Operand 1 (\<open>vj\<close>, \<open>qj\<close>) and operand 2 (\<open>vk\<close>, \<open>qk\<close>) of the station.\<close>

definition operand1 :: "SimulationState \<Rightarrow> InstructionLine \<Rightarrow> num option \<times> string option" where
  "operand1 s issueInst =
     (if getOpType (op issueInst) = BRANCH then
        (if dest issueInst \<noteq> [] then resolveOperand s (dest issueInst) else (None, None))
      else if src1 issueInst \<noteq> [] then resolveOperand s (src1 issueInst)
      else (None, None))"

definition operand2 :: "SimulationState \<Rightarrow> InstructionLine \<Rightarrow> num option \<times> string option" where
  "operand2 s issueInst =
     (let opType = getOpType (op issueInst) in
      if opType = STORE then resolveOperand s (dest issueInst)
      else if opType = BRANCH then
        (if src1 issueInst \<noteq> [] then resolveOperand s (src1 issueInst) else (None, None))
      else if opType = LOAD then (None, None)
      else if map_of (registers s) (src2 issueInst) \<noteq> None then resolveOperand s (src2 issueInst)
      else (Some (of_int (immediate issueInst)), None))"

text \<open>\<open>registers[name].qi = tag\<close> on the register that the lookup finds.\<close>

fun setQi :: "string \<Rightarrow> string \<Rightarrow> (string \<times> Register) list \<Rightarrow> (string \<times> Register) list" where
  "setQi name t [] = []"
| "setQi name t ((n, r) # regs) =
     (if n = name then (n, r\<lparr>qi := Some t\<rparr>) # regs else (n, r) # setQi name t regs)"

text \<open>Step 3b: allocation of a station for the instruction at position \<open>k\<close> and the
  issue itself.\<close>

definition allocateAndIssue :: "nat \<Rightarrow> num option \<Rightarrow> SimulationState \<Rightarrow> SimulationState" where
  "allocateAndIssue k effectiveAddr s =
     (let issueInst = instructions s ! k;
          opType = getOpType (op issueInst);
          rsType = getRSType opType
      in case findIndex (\<lambda>r. rs_type r = rsType \<and> \<not> busy r) (reservationStations s) of
           None \<Rightarrow> s
         | Some rsIndex \<Rightarrow>
             let freeRS = reservationStations s ! rsIndex;
                 (vj', qj') = operand1 s issueInst;
                 (vk', qk') = operand2 s issueInst;
                 a' = (if opType = STORE \<or> opType = LOAD then effectiveAddr else None);
                 newRS = freeRS\<lparr>busy := True, rs_op := Some (op issueInst),
                                 instId := Some (inst_id issueInst),
                                 vj := vj', vk := vk', qj := qj', qk := qk', rs_a := a',
                                 timeLeft := 0, result := None\<rparr>
             in s\<lparr>instructions := (instructions s)[k := issueInst\<lparr>issueCycle := Some (cycle s)\<rparr>],
                  pc := pc s + 4,
                  branchStall := (if opType = BRANCH then True else branchStall s),
                  reservationStations := (reservationStations s)[rsIndex := newRS],
                  registers :=
                    (if opType \<noteq> STORE \<and> opType \<noteq> BRANCH \<and> map_of (registers s) (dest issueInst) \<noteq> None
                     then setQi (dest issueInst) (rs_id freeRS) (registers s)
                     else registers s)\<rparr>)"

definition issue :: "SimulationState \<Rightarrow> SimulationState" where
  "issue s =
     (if \<not> branchStall s then
        (case selectIssue s of
           (s1, None) \<Rightarrow> s1
         | (s1, Some k) \<Rightarrow>
             (case addressHazardCheck s1 (instructions s1 ! k) of
                (effectiveAddr, True) \<Rightarrow> s1
              | (effectiveAddr, False) \<Rightarrow> allocateAndIssue k effectiveAddr s1))
      else s)"

subsection \<open>Completion check and the step\<close>

definition checkCompletion :: "SimulationState \<Rightarrow> SimulationState" where
  "checkCompletion s =
     (let allWritten = list_all (\<lambda>i. writeCycle i \<noteq> None) (instructions s);
          pcIsValid = list_ex (\<lambda>i. pcAddress i = pc s) (instructions s)
      in if allWritten \<and> \<not> pcIsValid
         then s\<lparr>isFinished := True, log_entries := log_entries s @ [LogAllCompleted]\<rparr>
         else s)"

definition nextCycle ::
  "SimulationState \<Rightarrow> SystemConfig \<Rightarrow> (string \<rightharpoonup> int) \<Rightarrow> SimulationState" where
  "nextCycle state config labels =
     (if isFinished state then state
      else
        let nextState = state\<lparr>cycle := cycle state + 1, cdb := None\<rparr>
        in checkCompletion (issue (execute config labels (writeResult nextState))))"

section \<open>Assembly parser\<close>

text \<open>
  The source text is taken as ASCII. None of \<open>split\<close>, \<open>trim\<close>, \<open>replace\<close>,
  \<open>toUpperCase\<close>, \<open>match\<close>, \<open>parseInt\<close> and \<open>push\<close> can raise; a missing token is read
  through \<open>parts[i] || ''\<close>, and \<open>parts[1]\<close> of a line split at \<open>:\<close> exists whenever
  the line contains a colon. The one operation that can raise is the call
  \<open>labels.hasOwnProperty(key)\<close>, see below.
\<close>

definition isSpace :: "char \<Rightarrow> bool" where
  "isSpace c \<longleftrightarrow> (of_char c :: nat) \<in> set [9, 10, 11, 12, 13, 32]"

definition isDigit :: "char \<Rightarrow> bool" where
  "isDigit c \<longleftrightarrow> 48 \<le> (of_char c :: nat) \<and> (of_char c :: nat) \<le> 57"

definition trim :: "string \<Rightarrow> string" where
  "trim s = rev (dropWhile isSpace (rev (dropWhile isSpace s)))"

text \<open>\<open>s.split(c)\<close> for a one-character separator.\<close>

fun splitOn :: "char \<Rightarrow> string \<Rightarrow> string list" where
  "splitOn c [] = [[]]"
| "splitOn c (x # xs) =
     (if x = c then [] # splitOn c xs
      else (case splitOn c xs of [] \<Rightarrow> [[x]] | w # ws \<Rightarrow> (x # w) # ws))"

text \<open>\<open>s.split(/\s+/)\<close>: one cut at every maximal run of white space.\<close>

function splitWs :: "string \<Rightarrow> string list" where
  "splitWs [] = [[]]"
| "splitWs (x # xs) =
     (if isSpace x then [] # splitWs (dropWhile isSpace xs)
      else (case splitWs xs of [] \<Rightarrow> [[x]] | w # ws \<Rightarrow> (x # w) # ws))"
  by pat_completeness auto
termination
  by (relation "measure length") (auto simp: le_imp_less_Suc length_dropWhile_le)

text \<open>\<open>parts[i] || ''\<close>.\<close>

definition part :: "string list \<Rightarrow> nat \<Rightarrow> string" where
  "part parts i = (if i < length parts then parts ! i else [])"

definition digitVal :: "char \<Rightarrow> int" where
  "digitVal c = int (of_char c) - 48"

definition isHexDigit :: "char \<Rightarrow> bool" where
  "isHexDigit c \<longleftrightarrow>
     isDigit c \<or> (65 \<le> (of_char c :: nat) \<and> (of_char c :: nat) \<le> 70)
       \<or> (97 \<le> (of_char c :: nat) \<and> (of_char c :: nat) \<le> 102)"

definition hexVal :: "char \<Rightarrow> int" where
  "hexVal c =
     (if isDigit c then digitVal c
      else if (of_char c :: nat) \<le> 70 then int (of_char c) - 55
      else int (of_char c) - 87)"

text \<open>\<open>parseInt\<close> without a radix: white space, a sign, then hexadecimal digits after
  \<open>0x\<close> or decimal digits; NaN (\<open>None\<close>) when no digit follows.\<close>

definition parseInt :: "string \<Rightarrow> int option" where
  "parseInt s =
     (let s1 = dropWhile isSpace s;
          sgn' = (case s1 of [] \<Rightarrow> 1 | c # _ \<Rightarrow> if c = CHR ''-'' then - 1 else (1::int));
          s2 = (case s1 of [] \<Rightarrow> [] | c # r \<Rightarrow> if c = CHR ''-'' \<or> c = CHR ''+'' then r else s1)
      in if startsWith s2 ''0x'' \<or> startsWith s2 ''0X'' then
           (let hs = takeWhile isHexDigit (drop 2 s2)
            in if hs = [] then None else Some (sgn' * foldl (\<lambda>acc c. 16 * acc + hexVal c) 0 hs))
         else
           (let ds = takeWhile isDigit s2
            in if ds = [] then None else Some (sgn' * foldl (\<lambda>acc c. 10 * acc + digitVal c) 0 ds)))"

text \<open>\<open>Number.prototype.toString\<close> on an integer.\<close>

definition string_of_int :: "int \<Rightarrow> string" where
  "string_of_int n = (if n < 0 then CHR ''-'' # string_of_nat (nat (- n)) else string_of_nat (nat n))"

text \<open>\<open>src1.match(/^(-?\d+)\((.+)\)$/)\<close>: the two groups of the load/store operand
  \<open>OFFSET(BASE)\<close>. The dot matches no line terminator.\<close>

definition matchMemOperand :: "string \<Rightarrow> (string \<times> string) option" where
  "matchMemOperand s =
     (let sgn' = (case s of [] \<Rightarrow> [] | c # _ \<Rightarrow> if c = CHR ''-'' then [c] else []);
          rest = drop (length sgn') s;
          ds = takeWhile isDigit rest;
          after = dropWhile isDigit rest
      in if ds = [] then None
         else (case after of
                 [] \<Rightarrow> None
               | c # body \<Rightarrow>
                   if c = CHR ''('' \<and> 2 \<le> length body \<and> last body = CHR '')''
                      \<and> list_all (\<lambda>d. (of_char d :: nat) \<noteq> 10 \<and> (of_char d :: nat) \<noteq> 13) (butlast body)
                   then Some (sgn' @ ds, butlast body)
                   else None))"

text \<open>
  The label table is a JavaScript object used as a dictionary; the model keeps its own
  properties. The assignment \<open>labels[label] = pcCounter\<close> creates an own property for
  every label but \<open>__proto__\<close>: that assignment goes to the accessor inherited from
  \<open>Object.prototype\<close>, which stores nothing when the value is a number.
\<close>

definition setLabel :: "(string \<rightharpoonup> int) \<Rightarrow> string \<Rightarrow> int \<Rightarrow> (string \<rightharpoonup> int)" where
  "setLabel labels label pcCounter =
     (if label = ''__proto__'' then labels else labels(label \<mapsto> pcCounter))"

text \<open>
  \<open>labels.hasOwnProperty(key)\<close> calls the inherited method, unless a label named
  \<open>hasOwnProperty\<close> has put a number in its place: calling the number raises a
  \<open>TypeError\<close>, which ends \<open>parseAssembly\<close>.
\<close>

datatype JSError = TypeError

definition hasOwnProperty :: "(string \<rightharpoonup> int) \<Rightarrow> string \<Rightarrow> JSError + bool" where
  "hasOwnProperty labels key =
     (if labels ''hasOwnProperty'' \<noteq> None then Inl TypeError else Inr (labels key \<noteq> None))"

text \<open>First pass: labels and the cleaned lines with their addresses.\<close>

definition firstPassLine ::
  "string \<Rightarrow> (string \<rightharpoonup> int) \<times> (string \<times> int) list \<times> int \<Rightarrow>
   (string \<rightharpoonup> int) \<times> (string \<times> int) list \<times> int" where
  "firstPassLine line st =
     (case st of (labels, cleanLines, pcCounter) \<Rightarrow>
        let labels' = (if CHR '':'' \<in> set line
                       then setLabel labels (trim (part (splitOn CHR '':'' line) 0)) pcCounter
                       else labels);
            currentLine = (if CHR '':'' \<in> set line
                           then trim (part (splitOn CHR '':'' line) 1)
                           else line)
        in if currentLine \<noteq> []
           then (labels', cleanLines @ [(currentLine, pcCounter)], pcCounter + 4)
           else (labels', cleanLines, pcCounter))"

definition firstPass :: "string \<Rightarrow> (string \<rightharpoonup> int) \<times> (string \<times> int) list \<times> int" where
  "firstPass code =
     fold firstPassLine (filter (\<lambda>l. l \<noteq> []) (map trim (splitOn (CHR 0x0A) code)))
       (Map.empty, [], 0)"

text \<open>Second pass: the instruction record of one cleaned line.\<close>

definition parseLine :: "(string \<rightharpoonup> int) \<Rightarrow> nat \<Rightarrow> string \<times> int \<Rightarrow> JSError + InstructionLine" where
  "parseLine labels index item =
     (let parts = splitWs (map (\<lambda>c. if c = CHR '','' then CHR '' '' else c) (fst item));
          op0 = toUpperCase (part parts 0);
          dest0 = part parts 1;
          src10 = part parts 2;
          src20 = part parts 3;
          push = (\<lambda>(src1', src2', imm).
            \<lparr>inst_id = int index, raw = fst item, op = op0, dest = dest0, src1 = src1',
             src2 = src2', immediate = imm, pcAddress = snd item, issueCycle = None,
             execStartCycle = None, execEndCycle = None, writeCycle = None\<rparr>)
      in if CHR ''('' \<in> set src10 \<and> CHR '')'' \<in> set src10 then
           (case matchMemOperand src10 of
              Some (off, baseReg) \<Rightarrow>
                (let imm = (case parseInt off of None \<Rightarrow> 0 | Some n \<Rightarrow> n)
                 in Inr (push (baseReg, string_of_int imm, imm)))
            | None \<Rightarrow> Inr (push (src10, src20, 0)))
         else
           (let imm = (case parseInt src20 of None \<Rightarrow> 0 | Some n \<Rightarrow> n)
            in case hasOwnProperty labels src20 of
                 Inl e \<Rightarrow> Inl e
               | Inr True \<Rightarrow> Inr (push (src10, src20, imm))
               | Inr False \<Rightarrow>
                   (case hasOwnProperty labels src10 of
                      Inl e \<Rightarrow> Inl e
                    | Inr isLabel \<Rightarrow>
                        if isLabel \<and> src20 = [] then Inr (push (src10, src10, imm))
                        else Inr (push (src10, src20, imm)))))"

text \<open>The \<open>forEach\<close> of the second pass: the records in order; the first line that
  raises ends the pass.\<close>

fun secondPass ::
  "(string \<rightharpoonup> int) \<Rightarrow> nat \<Rightarrow> (string \<times> int) list \<Rightarrow> JSError + InstructionLine list" where
  "secondPass labels index [] = Inr []"
| "secondPass labels index (item # items) =
     (case parseLine labels index item of
        Inl e \<Rightarrow> Inl e
      | Inr inst \<Rightarrow>
          (case secondPass labels (Suc index) items of
             Inl e \<Rightarrow> Inl e
           | Inr insts \<Rightarrow> Inr (inst # insts)))"

definition parseAssembly :: "string \<Rightarrow> JSError + (InstructionLine list \<times> (string \<rightharpoonup> int))" where
  "parseAssembly code =
     (case firstPass code of (labels, cleanLines, pcCounter) \<Rightarrow>
        (case secondPass labels 0 cleanLines of
           Inl e \<Rightarrow> Inl e
         | Inr insts \<Rightarrow> Inr (insts, labels)))"

section \<open>Notions used in the statements\<close>

text \<open>
  A run of \<open>n\<close> cycles: the caller applies \<open>nextCycle\<close> once per clock tick, with the
  same configuration and label table.
\<close>

fun steps :: "nat \<Rightarrow> SystemConfig \<Rightarrow> (string \<rightharpoonup> int) \<Rightarrow> SimulationState \<Rightarrow> SimulationState" where
  "steps 0 config labels s = s"
| "steps (Suc n) config labels s = nextCycle (steps n config labels s) config labels"

text \<open>
  The state that the issue phase of the step from \<open>s\<close> receives: the cycle counter
  advanced, the bus cleared, write-back and execute done.
\<close>

definition beforeIssue :: "SimulationState \<Rightarrow> SystemConfig \<Rightarrow> (string \<rightharpoonup> int) \<Rightarrow> SimulationState" where
  "beforeIssue s config labels =
     execute config labels (writeResult (s\<lparr>cycle := cycle s + 1, cdb := None\<rparr>))"

text \<open>
  The fields of an instruction that write-back and execute leave alone.
\<close>

definition staticPart :: "InstructionLine \<Rightarrow> int \<times> string \<times> string \<times> string \<times> string \<times> int \<times> int \<times> int option" where
  "staticPart i = (inst_id i, op i, dest i, src1 i, src2 i, immediate i, pcAddress i, issueCycle i)"

text \<open>
  The two conditions of termination: every dynamic instruction has a write cycle, and
  no dynamic instruction stands at the program counter.
\<close>

definition completionCondition :: "SimulationState \<Rightarrow> bool" where
  "completionCondition s \<longleftrightarrow>
     list_all (\<lambda>i. writeCycle i \<noteq> None) (instructions s) \<and>
     \<not> list_ex (\<lambda>i. pcAddress i = pc s) (instructions s)"

text \<open>
  The condition under which the issue phase appends a new dynamic instance: no branch
  stall, no un-issued instruction at the program counter, and some instruction of the
  list at the program counter.
\<close>

definition reentryCondition :: "SimulationState \<Rightarrow> bool" where
  "reentryCondition s \<longleftrightarrow>
     \<not> branchStall s \<and>
     \<not> list_ex (\<lambda>i. pcAddress i = pc s \<and> issueCycle i = None) (instructions s) \<and>
     list_ex (\<lambda>i. pcAddress i = pc s) (instructions s)"

text \<open>
  The class of the instruction bound to a station, as the disambiguation loop reads it:
  that of the first instruction of the list with the station's \<open>instId\<close>, INTEGER when
  there is none.
\<close>

definition boundOpType :: "SimulationState \<Rightarrow> ReservationStation \<Rightarrow> OpType" where
  "boundOpType s r =
     (case findInst (instId r) (instructions s) of
        Some c \<Rightarrow> getOpType (op (instructions s ! c))
      | None \<Rightarrow> INTEGER)"

text \<open>
  The condition of the memory disambiguation: some busy station, bound to an instruction
  of smaller identity than the candidate, holds the address, and the candidate is a LOAD
  and that instruction a STORE, or the candidate is a STORE and that instruction a LOAD
  or a STORE. The structural condition: every station of the candidate's class is busy.
\<close>

definition addressConflict :: "SimulationState \<Rightarrow> InstructionLine \<Rightarrow> num \<Rightarrow> bool" where
  "addressConflict s inst ea \<longleftrightarrow>
     (\<exists>checkRS\<in>set (reservationStations s).
        busy checkRS \<and>
        (case instId checkRS of None \<Rightarrow> False | Some cid \<Rightarrow> cid < inst_id inst) \<and>
        rs_a checkRS = Some ea \<and>
        ((getOpType (op inst) = LOAD \<and> boundOpType s checkRS = STORE) \<or>
         (getOpType (op inst) = STORE \<and>
            (boundOpType s checkRS = LOAD \<or> boundOpType s checkRS = STORE))))"

definition noFreeStation :: "SimulationState \<Rightarrow> InstructionLine \<Rightarrow> bool" where
  "noFreeStation s inst \<longleftrightarrow>
     (\<forall>r\<in>set (reservationStations s). rs_type r = getRSType (getOpType (op inst)) \<longrightarrow> busy r)"

text \<open>
  The invariant of a reservation station: busy exactly when bound to an instruction;
  an idle station holds no operand value and no operand tag; a busy station never holds
  both the value and the tag of an operand, holds an opcode, holds nothing in its second
  operand slot when the opcode is a LOAD, and holds exactly one of value and tag there
  when the opcode is neither a LOAD nor a BRANCH.
\<close>

definition rsInvariant :: "ReservationStation \<Rightarrow> bool" where
  "rsInvariant r \<longleftrightarrow>
     (busy r \<longleftrightarrow> instId r \<noteq> None) \<and>
     (\<not> busy r \<longrightarrow> vj r = None \<and> qj r = None \<and> vk r = None \<and> qk r = None) \<and>
     (busy r \<longrightarrow> (vj r = None \<or> qj r = None) \<and> (vk r = None \<or> qk r = None)) \<and>
     (busy r \<longrightarrow>
        (case rs_op r of
           None \<Rightarrow> False
         | Some opc \<Rightarrow>
             if getOpType opc = LOAD then vk r = None \<and> qk r = None
             else if getOpType opc = BRANCH then True
             else (vk r = None) \<noteq> (qk r = None)))"

text \<open>
  The positions of the instructions whose \<open>issueCycle\<close> differs between the state
  before a step and the state after it (an instruction appended by the step counts from
  null).
\<close>

definition newlyIssued :: "SimulationState \<Rightarrow> SimulationState \<Rightarrow> nat list" where
  "newlyIssued s s' =
     filter (\<lambda>k. issueCycle (instructions s' ! k) \<noteq>
                   (if k < length (instructions s) then issueCycle (instructions s ! k) else None))
       [0..<length (instructions s')]"



definition definesLabel :: "string \<Rightarrow> string \<Rightarrow> bool" where
  "definesLabel code label \<longleftrightarrow>
     (\<exists>l\<in>set (splitOn (CHR 0x0A) code).
        CHR '':'' \<in> set l \<and> trim (takeWhile (\<lambda>c. c \<noteq> CHR '':'') l) = label)"





section \<open>Example inputs\<close>

text \<open>
  Modelled from the spec: the default configuration (the constants file of this variant
  of the engine is not among the sources). The station counts and latencies are those
  of the interface description; the INTEGER class, whose default size is left open
  there, has two stations.
\<close>

definition DEFAULT_CONFIG :: SystemConfig where
  "DEFAULT_CONFIG =
     \<lparr>rsSizes = (\<lambda>t. case t of RS_ADD \<Rightarrow> 3 | RS_MULT \<Rightarrow> 2 | RS_LOAD \<Rightarrow> 3 | RS_STORE \<Rightarrow> 3
                         | RS_INTEGER \<Rightarrow> 2),
      latencies = (\<lambda>t. case t of LOAD \<Rightarrow> 2 | STORE \<Rightarrow> 2 | ADD \<Rightarrow> 2 | SUB \<Rightarrow> 2 | MULT \<Rightarrow> 10
                          | DIV \<Rightarrow> 40 | INTEGER \<Rightarrow> 1 | BRANCH \<Rightarrow> 1),
      cache_cfg = \<lparr>enabled = True, blockSize = 4, cacheSize = 16, missPenalty = 10\<rparr>\<rparr>"

definition withCache :: "bool \<Rightarrow> int \<Rightarrow> int \<Rightarrow> SystemConfig" where
  "withCache en bs cs =
     DEFAULT_CONFIG\<lparr>cache_cfg := \<lparr>enabled = en, blockSize = bs, cacheSize = cs, missPenalty = 10\<rparr>\<rparr>"

definition block :: "int \<Rightarrow> int \<Rightarrow> CacheBlock" where
  "block t la = \<lparr>tag = t, valid = True, cb_data = [], lastAccess = la\<rparr>"

text \<open>
  Views of a state: the stations ready to write with their bound identities; identity,
  address, issue cycle and write cycle of every instruction; the operand slots of the
  busy stations.
\<close>

definition readyStations :: "SimulationState \<Rightarrow> (string \<times> int option) list" where
  "readyStations s = map (\<lambda>r. (rs_id r, instId r)) (filter isReadyToWrite (reservationStations s))"

definition timestamps :: "SimulationState \<Rightarrow> (int \<times> int \<times> int option \<times> int option) list" where
  "timestamps s = map (\<lambda>i. (inst_id i, pcAddress i, issueCycle i, writeCycle i)) (instructions s)"

definition busyOperands ::
  "SimulationState \<Rightarrow> (string \<times> string option \<times> num option \<times> string option \<times> num option \<times> string option) list" where
  "busyOperands s =
     map (\<lambda>r. (rs_id r, rs_op r, vj r, qj r, vk r, qk r)) (filter busy (reservationStations s))"

text \<open>
  The programs below are accepted by the parser (lemma \<open>example_programs_accepted\<close>);
  \<open>projr\<close> takes the pair of instruction list and label table out of its result.
\<close>

text \<open>
  A loop whose branch is taken: the load at \<open>LOOP\<close> misses the cache and is still
  executing when the branch returns to it.
\<close>

definition loopProgram :: string where
  "loopProgram = ''LOOP: L.D F0, 0(R1)'' @ [CHR 0x0A] @ ''BNE R1, R2, LOOP''"

definition loopState :: "nat \<Rightarrow> SimulationState" where
  "loopState n =
     steps n DEFAULT_CONFIG (snd (projr (parseAssembly loopProgram)))
       (initializeState (fst (projr (parseAssembly loopProgram))) DEFAULT_CONFIG
          [(''F0'', 0), (''R1'', 8), (''R2'', 0)])"

text \<open>
  A load, an integer instruction and a multiplication: the load (2 cycles and a miss
  penalty of 10) and the multiplication (10 cycles), issued two cycles apart, finish
  executing in the same cycle.
\<close>

definition arbProgram :: string where
  "arbProgram =
     ''L.D F6, 0(R2)'' @ [CHR 0x0A] @ ''DADDI R1, R1, 0'' @ [CHR 0x0A] @ ''MUL.D F0, F2, F4''"

definition arbState :: "nat \<Rightarrow> SimulationState" where
  "arbState n =
     steps n DEFAULT_CONFIG (snd (projr (parseAssembly arbProgram)))
       (initializeState (fst (projr (parseAssembly arbProgram))) DEFAULT_CONFIG
          [(''F0'', 0), (''F2'', 133 / 100), (''F4'', 0), (''F6'', 0), (''R1'', 0), (''R2'', 0)])"

text \<open>
  A store followed by a load from the same address.
\<close>

definition storeLoadProgram :: string where
  "storeLoadProgram = ''S.D F0, 0(R1)'' @ [CHR 0x0A] @ ''L.D F2, 0(R1)''"

definition storeLoadState :: "nat \<Rightarrow> SimulationState" where
  "storeLoadState n =
     steps n DEFAULT_CONFIG (snd (projr (parseAssembly storeLoadProgram)))
       (initializeState (fst (projr (parseAssembly storeLoadProgram))) DEFAULT_CONFIG
          [(''F0'', 7), (''F2'', 0), (''R1'', 0)])"

text \<open>
  A load whose base register is the destination of the instruction before it; its
  own destination \<open>F9\<close> is not in the register file.
\<close>

definition baseProgram :: string where
  "baseProgram = ''DADDI R1, R1, 24'' @ [CHR 0x0A] @ ''L.D F9, 0(R1)''"

definition baseState :: "nat \<Rightarrow> SimulationState" where
  "baseState n =
     steps n DEFAULT_CONFIG (snd (projr (parseAssembly baseProgram)))
       (initializeState (fst (projr (parseAssembly baseProgram))) DEFAULT_CONFIG
          [(''F0'', 0), (''R1'', 0)])"

text \<open>
  The state in which the load of the last program is considered for issue while its
  base register still carries the tag \<open>I1\<close>, with that tag put on the bus.
\<close>

definition forwardState :: SimulationState where
  "forwardState =
     (beforeIssue (baseState 1) DEFAULT_CONFIG (snd (projr (parseAssembly baseProgram))))\<lparr>cdb := Some (''I1'', 24)\<rparr>"

text \<open>
  Four loads from four addresses, one load more than the LOAD class has stations.
\<close>

definition fourLoadsProgram :: string where
  "fourLoadsProgram =
     ''L.D F0, 0(R1)'' @ [CHR 0x0A] @ ''L.D F2, 8(R1)'' @ [CHR 0x0A] @
     ''L.D F4, 16(R1)'' @ [CHR 0x0A] @ ''L.D F6, 24(R1)''"

definition fourLoadsState :: "nat \<Rightarrow> SimulationState" where
  "fourLoadsState n =
     steps n DEFAULT_CONFIG (snd (projr (parseAssembly fourLoadsProgram)))
       (initializeState (fst (projr (parseAssembly fourLoadsProgram))) DEFAULT_CONFIG
          [(''F0'', 0), (''F2'', 0), (''F4'', 0), (''F6'', 0), (''R1'', 0)])"

section \<open>Properties\<close>

subsection \<open>Lists\<close>

lemma findIndex_Some:
  "findIndex P xs = Some i \<Longrightarrow> i < length xs \<and> P (xs ! i) \<and> (\<forall>j<i. \<not> P (xs ! j))"
proof (induction xs arbitrary: i)
  case Nil
  then show ?case by simp
next
  case (Cons x xs)
  show ?case
  proof (cases "P x")
    case True
    with Cons.prems show ?thesis by simp
  next
    case False
    with Cons.prems obtain k where k: "findIndex P xs = Some k" "i = Suc k"
      by auto
    from Cons.IH [OF k(1)] False k(2) show ?thesis
      by (auto simp: less_Suc_eq_0_disj)
  qed
qed

lemma findIndex_None: "findIndex P xs = None \<longleftrightarrow> (\<forall>x\<in>set xs. \<not> P x)"
  by (induction xs) auto

lemma findIndex_None_list_ex: "findIndex P xs = None \<longleftrightarrow> \<not> list_ex P xs"
  by (simp add: findIndex_None list_ex_iff)

lemma filter_hd_findIndex:
  "filter P xs = y # ys \<Longrightarrow> \<exists>p. findIndex P xs = Some p \<and> xs ! p = y"
proof (induction xs)
  case Nil
  then show ?case by simp
next
  case (Cons x xs)
  then show ?case by (cases "P x") auto
qed

lemma fold_preserves:
  "(\<And>x s. x \<in> set xs \<Longrightarrow> P s \<Longrightarrow> P (f x s)) \<Longrightarrow> P s \<Longrightarrow> P (fold f xs s)"
  by (induction xs arbitrary: s) auto

lemma fold_stall:
  "fold (\<lambda>x b. if P x then True else b) xs b0 \<longleftrightarrow> b0 \<or> (\<exists>x\<in>set xs. P x)"
  by (induction xs arbitrary: b0) auto

lemma map_update_same:
  "f y = f (xs ! k) \<Longrightarrow> map f (xs[k := y]) = map f xs"
  by (cases "k < length xs") (simp_all add: map_update list_update_same_conv list_update_beyond)

lemma list_all_update:
  "list_all P xs \<Longrightarrow> P y \<Longrightarrow> list_all P (xs[i := y])"
  by (induction xs arbitrary: i) (auto split: nat.splits)

lemma floor_numeral_div_rat:
  "\<lfloor>(numeral a :: rat) / numeral b\<rfloor> = numeral a div numeral b"
  using floor_divide_of_int_eq [of "numeral a" "numeral b", where ?'a = rat] by simp

subsection \<open>What each phase leaves unchanged\<close>

lemma writeResult_frame:
  "cycle (writeResult s) = cycle s"
  "pc (writeResult s) = pc s"
  "isFinished (writeResult s) = isFinished s"
  "branchStall (writeResult s) = branchStall s"
  "memory (writeResult s) = memory s"
  "cache (writeResult s) = cache s"
  "length (reservationStations (writeResult s)) = length (reservationStations s)"
  "map fst (registers (writeResult s)) = map fst (registers s)"
  "map staticPart (instructions (writeResult s)) = map staticPart (instructions s)"
  by (auto simp: writeResult_def Let_def map_update_same staticPart_def comp_def case_prod_unfold
      split: list.splits option.splits)

lemma setTimeLeft_frame:
  "cycle (setTimeLeft idx t s) = cycle s"
  "pc (setTimeLeft idx t s) = pc s"
  "isFinished (setTimeLeft idx t s) = isFinished s"
  "branchStall (setTimeLeft idx t s) = branchStall s"
  "memory (setTimeLeft idx t s) = memory s"
  "cache (setTimeLeft idx t s) = cache s"
  "cdb (setTimeLeft idx t s) = cdb s"
  "registers (setTimeLeft idx t s) = registers s"
  "instructions (setTimeLeft idx t s) = instructions s"
  "length (reservationStations (setTimeLeft idx t s)) = length (reservationStations s)"
  by (simp_all add: setTimeLeft_def)

lemma startExecution_frame:
  "cycle (startExecution config idx k s) = cycle s"
  "pc (startExecution config idx k s) = pc s"
  "isFinished (startExecution config idx k s) = isFinished s"
  "branchStall (startExecution config idx k s) = branchStall s"
  "memory (startExecution config idx k s) = memory s"
  "cdb (startExecution config idx k s) = cdb s"
  "registers (startExecution config idx k s) = registers s"
  "length (reservationStations (startExecution config idx k s)) = length (reservationStations s)"
  "map staticPart (instructions (startExecution config idx k s)) = map staticPart (instructions s)"
  by (simp_all add: startExecution_def Let_def setTimeLeft_frame map_update_same staticPart_def)

lemma decrementTimer_frame:
  "cycle (decrementTimer idx s) = cycle s"
  "pc (decrementTimer idx s) = pc s"
  "isFinished (decrementTimer idx s) = isFinished s"
  "branchStall (decrementTimer idx s) = branchStall s"
  "memory (decrementTimer idx s) = memory s"
  "cache (decrementTimer idx s) = cache s"
  "cdb (decrementTimer idx s) = cdb s"
  "registers (decrementTimer idx s) = registers s"
  "instructions (decrementTimer idx s) = instructions s"
  "length (reservationStations (decrementTimer idx s)) = length (reservationStations s)"
  by (simp_all add: decrementTimer_def Let_def setTimeLeft_frame)

lemma resolveBranch_frame:
  "cycle (resolveBranch labels inst v1 v2 s) = cycle s"
  "isFinished (resolveBranch labels inst v1 v2 s) = isFinished s"
  "branchStall (resolveBranch labels inst v1 v2 s) = False"
  "memory (resolveBranch labels inst v1 v2 s) = memory s"
  "cache (resolveBranch labels inst v1 v2 s) = cache s"
  "cdb (resolveBranch labels inst v1 v2 s) = cdb s"
  "registers (resolveBranch labels inst v1 v2 s) = registers s"
  "instructions (resolveBranch labels inst v1 v2 s) = instructions s"
  "reservationStations (resolveBranch labels inst v1 v2 s) = reservationStations s"
  by (simp_all add: resolveBranch_def Let_def split: option.splits)

lemma finishExecution_frame:
  "cycle (finishExecution labels idx k s) = cycle s"
  "isFinished (finishExecution labels idx k s) = isFinished s"
  "cache (finishExecution labels idx k s) = cache s"
  "cdb (finishExecution labels idx k s) = cdb s"
  "registers (finishExecution labels idx k s) = registers s"
  "length (reservationStations (finishExecution labels idx k s)) = length (reservationStations s)"
  "map staticPart (instructions (finishExecution labels idx k s)) = map staticPart (instructions s)"
  by (simp_all add: finishExecution_def Let_def resolveBranch_frame map_update_same staticPart_def)

lemma executeRS_frame:
  "cycle (executeRS config labels idx s) = cycle s"
  "isFinished (executeRS config labels idx s) = isFinished s"
  "cdb (executeRS config labels idx s) = cdb s"
  "registers (executeRS config labels idx s) = registers s"
  "length (reservationStations (executeRS config labels idx s)) = length (reservationStations s)"
  "map staticPart (instructions (executeRS config labels idx s)) = map staticPart (instructions s)"
  by (simp_all add: executeRS_def Let_def finishExecution_frame decrementTimer_frame
      startExecution_frame split: option.splits)

lemma execute_preserves:
  assumes "\<And>idx t. g (executeRS config labels idx t) = g t"
  shows "g (execute config labels s) = g s"
  unfolding execute_def
  by (rule fold_preserves [where P = "\<lambda>t. g t = g s"]) (simp_all add: assms)

lemma execute_frame:
  "cycle (execute config labels s) = cycle s"
  "isFinished (execute config labels s) = isFinished s"
  "cdb (execute config labels s) = cdb s"
  "registers (execute config labels s) = registers s"
  "length (reservationStations (execute config labels s)) = length (reservationStations s)"
  "map staticPart (instructions (execute config labels s)) = map staticPart (instructions s)"
  by (rule execute_preserves, simp add: executeRS_frame)+

lemma map_fst_setQi: "map fst (setQi name t regs) = map fst regs"
  by (induction regs) auto

lemma selectIssue_cases:
  assumes "selectIssue s = (s1, ko)"
  shows "s1 = s\<lparr>instructions := instructions s1\<rparr>"
    and "(instructions s1 = instructions s \<and> (ko = None \<or> (\<exists>k. ko = Some k \<and> k < length (instructions s)))) \<or>
         (\<exists>c. instructions s1 = instructions s @ [c] \<and> issueCycle c = None \<and> ko = Some (length (instructions s)))"
proof -
  show "s1 = s\<lparr>instructions := instructions s1\<rparr>"
    using assms by (auto simp: selectIssue_def Let_def split: option.splits)
  show "(instructions s1 = instructions s \<and> (ko = None \<or> (\<exists>k. ko = Some k \<and> k < length (instructions s)))) \<or>
         (\<exists>c. instructions s1 = instructions s @ [c] \<and> issueCycle c = None \<and> ko = Some (length (instructions s)))"
  proof (cases "findIndex (\<lambda>i. pcAddress i = pc s \<and> issueCycle i = None) (instructions s)")
    case (Some k)
    from findIndex_Some [OF Some] have "k < length (instructions s)" by simp
    with assms Some show ?thesis by (auto simp: selectIssue_def)
  next
    case None
    then show ?thesis
      using assms by (cases "findIndex (\<lambda>i. pcAddress i = pc s) (instructions s)")
        (auto simp: selectIssue_def Let_def)
  qed
qed

lemma selectIssue_frame:
  assumes "selectIssue s = (s1, ko)"
  shows "cycle s1 = cycle s" "pc s1 = pc s" "isFinished s1 = isFinished s"
    "branchStall s1 = branchStall s" "memory s1 = memory s" "cache s1 = cache s"
    "cdb s1 = cdb s" "registers s1 = registers s" "reservationStations s1 = reservationStations s"
  using selectIssue_cases(1) [OF assms]
  by (metis SimulationState.select_convs SimulationState.surjective SimulationState.update_convs)+

lemma selectIssue_candidate:
  assumes "selectIssue s0 = (s, Some k)"
  shows "k < length (instructions s)" "pcAddress (instructions s ! k) = pc s0"
    "issueCycle (instructions s ! k) = None"
proof -
  show "k < length (instructions s)" "pcAddress (instructions s ! k) = pc s0"
    "issueCycle (instructions s ! k) = None"
  proof (atomize (full), cases "findIndex (\<lambda>i. pcAddress i = pc s0 \<and> issueCycle i = None) (instructions s0)")
    case (Some j)
    from findIndex_Some [OF Some] assms Some
    show "k < length (instructions s) \<and> pcAddress (instructions s ! k) = pc s0 \<and>
      issueCycle (instructions s ! k) = None"
      by (auto simp: selectIssue_def)
  next
    case None
    show "k < length (instructions s) \<and> pcAddress (instructions s ! k) = pc s0 \<and>
      issueCycle (instructions s ! k) = None"
    proof (cases "findIndex (\<lambda>i. pcAddress i = pc s0) (instructions s0)")
      case n2: None
      with None assms show ?thesis by (simp add: selectIssue_def)
    next
      case (Some t)
      from findIndex_Some [OF Some] assms None Some show ?thesis
        by (auto simp: selectIssue_def Let_def)
    qed
  qed
qed

lemma allocateAndIssue_frame:
  "cycle (allocateAndIssue k ea s) = cycle s"
  "isFinished (allocateAndIssue k ea s) = isFinished s"
  "memory (allocateAndIssue k ea s) = memory s"
  "cache (allocateAndIssue k ea s) = cache s"
  "cdb (allocateAndIssue k ea s) = cdb s"
  "length (reservationStations (allocateAndIssue k ea s)) = length (reservationStations s)"
  "length (instructions (allocateAndIssue k ea s)) = length (instructions s)"
  "map fst (registers (allocateAndIssue k ea s)) = map fst (registers s)"
  by (simp_all add: allocateAndIssue_def Let_def map_fst_setQi case_prod_unfold split: option.splits)

lemma issue_frame:
  "cycle (issue s) = cycle s"
  "isFinished (issue s) = isFinished s"
  "memory (issue s) = memory s"
  "cache (issue s) = cache s"
  "cdb (issue s) = cdb s"
  "length (reservationStations (issue s)) = length (reservationStations s)"
  "map fst (registers (issue s)) = map fst (registers s)"
proof -
  obtain s1 ko where sel: "selectIssue s = (s1, ko)" by (cases "selectIssue s")
  note fr = selectIssue_frame [OF sel]
  show "cycle (issue s) = cycle s"
    "isFinished (issue s) = isFinished s"
    "memory (issue s) = memory s"
    "cache (issue s) = cache s"
    "cdb (issue s) = cdb s"
    "length (reservationStations (issue s)) = length (reservationStations s)"
    "map fst (registers (issue s)) = map fst (registers s)"
    by (simp_all add: issue_def sel fr allocateAndIssue_frame split: option.splits prod.splits bool.splits)
qed

lemma checkCompletion_frame:
  "cycle (checkCompletion s) = cycle s"
  "pc (checkCompletion s) = pc s"
  "instructions (checkCompletion s) = instructions s"
  "reservationStations (checkCompletion s) = reservationStations s"
  "registers (checkCompletion s) = registers s"
  "memory (checkCompletion s) = memory s"
  "cache (checkCompletion s) = cache s"
  "cdb (checkCompletion s) = cdb s"
  "branchStall (checkCompletion s) = branchStall s"
  by (simp_all add: checkCompletion_def Let_def)

lemma nextCycle_unfold:
  "\<not> isFinished s \<Longrightarrow>
   nextCycle s config labels =
     checkCompletion (issue (execute config labels (writeResult (s\<lparr>cycle := cycle s + 1, cdb := None\<rparr>))))"
  by (simp add: nextCycle_def Let_def)

lemma loopState_0:
  "loopState 0 = initializeState (fst (projr (parseAssembly loopProgram))) DEFAULT_CONFIG
          [(''F0'', 0), (''R1'', 8), (''R2'', 0)]"
  by (simp add: loopState_def)

lemma loopState_Suc:
  "loopState (Suc n) = nextCycle (loopState n) DEFAULT_CONFIG (snd (projr (parseAssembly loopProgram)))"
  by (simp add: loopState_def)

text \<open>
  The parser accepts the example programs: the runs above start from their instruction
  lists and use their label tables.
\<close>

lemma example_programs_accepted:
  "\<not> isl (parseAssembly loopProgram)" "\<not> isl (parseAssembly arbProgram)"
  "\<not> isl (parseAssembly storeLoadProgram)" "\<not> isl (parseAssembly baseProgram)"
  "\<not> isl (parseAssembly fourLoadsProgram)"
  by code_simp+

subsection \<open>Write-back arbitration\<close>

lemma cdb_writeResult_ready:
  assumes "\<exists>r\<in>set (reservationStations s). isReadyToWrite r"
  shows "\<exists>p<length (reservationStations s).
           isReadyToWrite (reservationStations s ! p) \<and>
           (\<forall>j<p. \<not> isReadyToWrite (reservationStations s ! j)) \<and>
           cdb (writeResult s) =
             Some (rs_id (reservationStations s ! p), the (result (reservationStations s ! p)))"
proof -
  from assms have "filter isReadyToWrite (reservationStations s) \<noteq> []"
    by (simp add: filter_empty_conv)
  then obtain y ys where f: "filter isReadyToWrite (reservationStations s) = y # ys"
    by (cases "filter isReadyToWrite (reservationStations s)") auto
  from filter_hd_findIndex [OF f] obtain p where
    p: "findIndex isReadyToWrite (reservationStations s) = Some p" "reservationStations s ! p = y"
    by blast
  have "cdb (writeResult s) = Some (rs_id y, the (result y))"
    by (simp add: writeResult_def f Let_def)
  with findIndex_Some [OF p(1)] p(2) show ?thesis by auto
qed

lemma cdb_writeResult_none:
  assumes "\<forall>r\<in>set (reservationStations s). \<not> isReadyToWrite r"
  shows "writeResult s = s"
proof -
  from assms have "filter isReadyToWrite (reservationStations s) = []"
    by (simp add: filter_empty_conv)
  then show ?thesis by (simp add: writeResult_def)
qed

text \<open>
  C1, as stated, fails. In the run of the load, the integer instruction and the
  multiplication under the default configuration, two stations are ready to write after
  13 cycles: \<open>M1\<close>, bound to instruction 2, and \<open>L1\<close>, bound to instruction 0. The step
  broadcasts \<open>M1\<close>, the station of the later instruction.
\<close>

theorem cdb_arbitration_counterexample:
  "readyStations (arbState 13) = [(''M1'', Some 2), (''L1'', Some 0)] \<and>
   cdb (nextCycle (arbState 13) DEFAULT_CONFIG (snd (projr (parseAssembly arbProgram)))) = Some (''M1'', 0)"
  by code_simp

text \<open>
  C1 (amended). In the write-back phase of every step, if at least one busy
  reservation station has remaining time 0 and a non-null result, the station that
  broadcasts on the CDB is the first of them in the order of the station list (ADD, MULT,
  LOAD, STORE, INTEGER, each by ordinal): the bus carries its identity and its result.
  The identities of the bound instructions play no part. If no station is ready the bus
  stays empty.
\<close>

theorem cdb_producer_first_ready:
  assumes "\<not> isFinished s"
  shows "((\<exists>r\<in>set (reservationStations s). isReadyToWrite r) \<longrightarrow>
           (\<exists>p<length (reservationStations s).
              isReadyToWrite (reservationStations s ! p) \<and>
              (\<forall>j<p. \<not> isReadyToWrite (reservationStations s ! j)) \<and>
              cdb (nextCycle s config labels) =
                Some (rs_id (reservationStations s ! p), the (result (reservationStations s ! p))))) \<and>
         ((\<forall>r\<in>set (reservationStations s). \<not> isReadyToWrite r) \<longrightarrow>
            cdb (nextCycle s config labels) = None)"
proof -
  define s0 where "s0 = s\<lparr>cycle := cycle s + 1, cdb := None\<rparr>"
  have c: "cdb (nextCycle s config labels) = cdb (writeResult s0)"
    using assms
    by (simp add: nextCycle_unfold s0_def checkCompletion_frame issue_frame execute_frame)
  have rs: "reservationStations s0 = reservationStations s" by (simp add: s0_def)
  show ?thesis
  proof (intro conjI impI)
    assume "\<exists>r\<in>set (reservationStations s). isReadyToWrite r"
    then have "\<exists>r\<in>set (reservationStations s0). isReadyToWrite r" by (simp add: rs)
    from cdb_writeResult_ready [OF this] show "\<exists>p<length (reservationStations s).
              isReadyToWrite (reservationStations s ! p) \<and>
              (\<forall>j<p. \<not> isReadyToWrite (reservationStations s ! j)) \<and>
              cdb (nextCycle s config labels) =
                Some (rs_id (reservationStations s ! p), the (result (reservationStations s ! p)))"
      by (simp add: c rs)
  next
    assume "\<forall>r\<in>set (reservationStations s). \<not> isReadyToWrite r"
    then have "\<forall>r\<in>set (reservationStations s0). \<not> isReadyToWrite r" by (simp add: rs)
    from cdb_writeResult_none [OF this] show "cdb (nextCycle s config labels) = None"
      by (simp add: c s0_def)
  qed
qed

text \<open>
  The arbitration at the state with two ready stations, and the empty bus of the step
  from the initial state, where no station is ready.
\<close>

theorem cdb_producer_first_ready_witness:
  "\<not> isFinished (arbState 13) \<and>
   list_ex isReadyToWrite (reservationStations (arbState 13)) \<and>
   (\<exists>p<length (reservationStations (arbState 13)).
      isReadyToWrite (reservationStations (arbState 13) ! p) \<and>
      cdb (nextCycle (arbState 13) DEFAULT_CONFIG (snd (projr (parseAssembly arbProgram)))) =
        Some (rs_id (reservationStations (arbState 13) ! p),
              the (result (reservationStations (arbState 13) ! p)))) \<and>
   \<not> isFinished (arbState 0) \<and>
   \<not> list_ex isReadyToWrite (reservationStations (arbState 0)) \<and>
   cdb (nextCycle (arbState 0) DEFAULT_CONFIG (snd (projr (parseAssembly arbProgram)))) = None"
proof -
  have a: "\<not> isFinished (arbState 13)" by code_simp
  have b: "list_ex isReadyToWrite (reservationStations (arbState 13))" by code_simp
  then have b': "\<exists>r\<in>set (reservationStations (arbState 13)). isReadyToWrite r"
    by (simp add: list_ex_iff)
  have c: "\<not> isFinished (arbState 0)" by code_simp
  have d: "\<not> list_ex isReadyToWrite (reservationStations (arbState 0))" by code_simp
  then have d': "\<forall>r\<in>set (reservationStations (arbState 0)). \<not> isReadyToWrite r"
    by (simp add: list_ex_iff)
  from cdb_producer_first_ready [OF a, of DEFAULT_CONFIG "snd (projr (parseAssembly arbProgram))"] b'
  have r1: "\<exists>p<length (reservationStations (arbState 13)).
      isReadyToWrite (reservationStations (arbState 13) ! p) \<and>
      cdb (nextCycle (arbState 13) DEFAULT_CONFIG (snd (projr (parseAssembly arbProgram)))) =
        Some (rs_id (reservationStations (arbState 13) ! p),
              the (result (reservationStations (arbState 13) ! p)))"
    by blast
  from cdb_producer_first_ready [OF c, of DEFAULT_CONFIG "snd (projr (parseAssembly arbProgram))"] d'
  have r2: "cdb (nextCycle (arbState 0) DEFAULT_CONFIG (snd (projr (parseAssembly arbProgram)))) = None"
    by blast
  from a b c d r1 r2 show ?thesis by blast
qed

subsection \<open>Termination\<close>

lemma checkCompletion_isFinished:
  "isFinished (checkCompletion s) \<longleftrightarrow> isFinished s \<or> completionCondition s"
  by (auto simp: checkCompletion_def completionCondition_def Let_def)

lemma completionCondition_checkCompletion:
  "completionCondition (checkCompletion s) = completionCondition s"
  by (simp add: completionCondition_def checkCompletion_frame)

lemma nextCycle_finished_iff:
  assumes "isFinished s \<longrightarrow> completionCondition s"
  shows "isFinished (nextCycle s config labels) \<longleftrightarrow> completionCondition (nextCycle s config labels)"
proof (cases "isFinished s")
  case True
  with assms show ?thesis by (simp add: nextCycle_def)
next
  case False
  define sI where "sI = issue (execute config labels (writeResult (s\<lparr>cycle := cycle s + 1, cdb := None\<rparr>)))"
  have nf: "\<not> isFinished sI"
    using False by (simp add: sI_def issue_frame execute_frame writeResult_frame)
  have "nextCycle s config labels = checkCompletion sI"
    using False by (simp add: nextCycle_def sI_def Let_def)
  then show ?thesis
    using nf by (simp add: checkCompletion_isFinished completionCondition_checkCompletion)
qed

lemma steps_finished_imp:
  "isFinished (steps n config labels (initializeState insts config initialRegs)) \<longrightarrow>
   completionCondition (steps n config labels (initializeState insts config initialRegs))"
proof (induction n)
  case 0
  show ?case by (simp add: initializeState_def)
next
  case (Suc n)
  from nextCycle_finished_iff [OF Suc.IH] show ?case by simp
qed

text \<open>
  C2. After every step, the finished flag is set exactly when every dynamic instruction
  of the list has a non-null write cycle and no dynamic instruction has the current PC
  as its address. This holds for the step from any state whose finished flag, if set,
  was set under that condition, and so after each of the steps of every run from an
  initial state.
\<close>

theorem finished_flag_iff_completion:
  "((isFinished s \<longrightarrow> completionCondition s) \<longrightarrow>
      (isFinished (nextCycle s config labels) \<longleftrightarrow> completionCondition (nextCycle s config labels))) \<and>
   (isFinished (steps (Suc n) config labels (initializeState insts config initialRegs)) \<longleftrightarrow>
      completionCondition (steps (Suc n) config labels (initializeState insts config initialRegs)))"
proof (intro conjI impI)
  assume "isFinished s \<longrightarrow> completionCondition s"
  then show "isFinished (nextCycle s config labels) \<longleftrightarrow> completionCondition (nextCycle s config labels)"
    by (rule nextCycle_finished_iff)
next
  from nextCycle_finished_iff [OF steps_finished_imp [of n config labels insts initialRegs]]
  show "isFinished (steps (Suc n) config labels (initializeState insts config initialRegs)) \<longleftrightarrow>
      completionCondition (steps (Suc n) config labels (initializeState insts config initialRegs))"
    by simp
qed

text \<open>
  The step that finishes the run of the two-instruction program: the flag is clear
  after 15 cycles and set, with the condition, after the sixteenth.
\<close>

theorem finished_flag_iff_completion_witness:
  "\<not> isFinished (baseState 15) \<and>
   isFinished (nextCycle (baseState 15) DEFAULT_CONFIG (snd (projr (parseAssembly baseProgram)))) \<and>
   completionCondition (nextCycle (baseState 15) DEFAULT_CONFIG (snd (projr (parseAssembly baseProgram))))"
proof -
  have a: "\<not> isFinished (baseState 15)" by code_simp
  have b: "isFinished (nextCycle (baseState 15) DEFAULT_CONFIG (snd (projr (parseAssembly baseProgram))))"
    by code_simp
  from a have h: "isFinished (baseState 15) \<longrightarrow> completionCondition (baseState 15)" by simp
  note t = finished_flag_iff_completion [where s = "baseState 15" and config = DEFAULT_CONFIG
      and labels = "snd (projr (parseAssembly baseProgram))", THEN conjunct1, THEN mp]
  from t [OF h] a b show ?thesis by simp
qed

subsection \<open>Loop re-entry\<close>

lemma foldl_max_ge_start:
  "a \<le> foldl (\<lambda>m i. max m (inst_id i)) a insts"
proof (induction insts arbitrary: a)
  case Nil
  then show ?case by simp
next
  case (Cons x xs)
  have "a \<le> max a (inst_id x)" by simp
  also have "\<dots> \<le> foldl (\<lambda>m i. max m (inst_id i)) (max a (inst_id x)) xs" by (rule Cons.IH)
  finally show ?case by simp
qed

lemma foldl_max_ge_elem:
  "i \<in> set insts \<Longrightarrow> inst_id i \<le> foldl (\<lambda>m i. max m (inst_id i)) a insts"
proof (induction insts arbitrary: a)
  case Nil
  then show ?case by simp
next
  case (Cons x xs)
  show ?case
  proof (cases "i = x")
    case True
    have "inst_id x \<le> max a (inst_id x)" by simp
    also have "\<dots> \<le> foldl (\<lambda>m i. max m (inst_id i)) (max a (inst_id x)) xs"
      by (rule foldl_max_ge_start)
    finally show ?thesis using True by simp
  next
    case False
    with Cons.prems have "i \<in> set xs" by simp
    from Cons.IH [OF this] show ?thesis by simp
  qed
qed

lemma maxId_fresh: "i \<in> set insts \<Longrightarrow> inst_id i < maxId insts + 1"
  using foldl_max_ge_elem [of i insts 0] by (simp add: maxId_def)

lemma length_instructions_issue:
  "selectIssue s = (s1, ko) \<Longrightarrow> \<not> branchStall s \<Longrightarrow>
   length (instructions (issue s)) = length (instructions s1)"
  by (simp add: issue_def allocateAndIssue_frame split: option.splits prod.splits bool.splits)

text \<open>
  C3, as stated, fails. In the run of the loop under the default configuration the
  branch is taken in cycle 3 and the program counter returns to address 0, where the
  only instance of the load (identity 0, issued in cycle 1) is still executing: its write
  cycle is null before and after the step. The step appends a new instance (identity 2)
  at that address all the same, and issues it.
\<close>

theorem loop_reentry_counterexample:
  "timestamps (loopState 2) = [(0, 0, Some 1, None), (1, 4, Some 2, None)] \<and>
   timestamps (loopState 3) =
     [(0, 0, Some 1, None), (1, 4, Some 2, Some 3), (2, 0, Some 3, None)]"
  by code_simp

text \<open>
  C3 (amended). During the issue phase, a new dynamic instance of the instruction at
  the current PC is appended to the dynamic instruction list exactly when the branch
  stall is clear, no un-issued instance exists at that PC, and some dynamic instance at
  that PC is in the list; that instance need not be retired. The new instance is a copy
  of the first instance at that PC with a fresh identity (one more than the largest in
  the list) and all four timestamps null, it is the instruction considered for issue,
  and nothing else is appended in the phase.
\<close>

theorem loop_reentry_instance:
  "(reentryCondition s \<longrightarrow>
      (\<exists>t newInst.
         findIndex (\<lambda>i. pcAddress i = pc s) (instructions s) = Some t \<and>
         newInst = (instructions s ! t)\<lparr>inst_id := maxId (instructions s) + 1, issueCycle := None,
                     execStartCycle := None, execEndCycle := None, writeCycle := None\<rparr> \<and>
         selectIssue s = (s\<lparr>instructions := instructions s @ [newInst]\<rparr>, Some (length (instructions s))) \<and>
         (\<forall>i\<in>set (instructions s). inst_id i < inst_id newInst) \<and>
         length (instructions (issue s)) = Suc (length (instructions s)))) \<and>
   (\<not> reentryCondition s \<longrightarrow>
      length (instructions (issue s)) = length (instructions s) \<and>
      (\<not> branchStall s \<longrightarrow> instructions (fst (selectIssue s)) = instructions s))"
proof (intro conjI impI)
  assume rc: "reentryCondition s"
  then have n: "findIndex (\<lambda>i. pcAddress i = pc s \<and> issueCycle i = None) (instructions s) = None"
    by (simp add: reentryCondition_def findIndex_None_list_ex)
  from rc have "findIndex (\<lambda>i. pcAddress i = pc s) (instructions s) \<noteq> None"
    by (simp add: reentryCondition_def findIndex_None_list_ex)
  then obtain t where t: "findIndex (\<lambda>i. pcAddress i = pc s) (instructions s) = Some t" by blast
  define newInst where "newInst = (instructions s ! t)\<lparr>inst_id := maxId (instructions s) + 1,
     issueCycle := None, execStartCycle := None, execEndCycle := None, writeCycle := None\<rparr>"
  have sel: "selectIssue s = (s\<lparr>instructions := instructions s @ [newInst]\<rparr>, Some (length (instructions s)))"
    by (simp add: selectIssue_def n t Let_def newInst_def)
  have fresh: "\<forall>i\<in>set (instructions s). inst_id i < inst_id newInst"
    using maxId_fresh [of _ "instructions s"] by (simp add: newInst_def)
  have "\<not> branchStall s" using rc by (simp add: reentryCondition_def)
  from length_instructions_issue [OF sel this]
  have "length (instructions (issue s)) = Suc (length (instructions s))" by simp
  with t sel fresh newInst_def
  show "\<exists>t newInst.
         findIndex (\<lambda>i. pcAddress i = pc s) (instructions s) = Some t \<and>
         newInst = (instructions s ! t)\<lparr>inst_id := maxId (instructions s) + 1, issueCycle := None,
                     execStartCycle := None, execEndCycle := None, writeCycle := None\<rparr> \<and>
         selectIssue s = (s\<lparr>instructions := instructions s @ [newInst]\<rparr>, Some (length (instructions s))) \<and>
         (\<forall>i\<in>set (instructions s). inst_id i < inst_id newInst) \<and>
         length (instructions (issue s)) = Suc (length (instructions s))"
    by blast
next
  assume nrc: "\<not> reentryCondition s"
  have same: "instructions (fst (selectIssue s)) = instructions s" if "\<not> branchStall s"
  proof (cases "findIndex (\<lambda>i. pcAddress i = pc s \<and> issueCycle i = None) (instructions s)")
    case (Some k)
    then show ?thesis by (simp add: selectIssue_def)
  next
    case None
    with nrc that have "findIndex (\<lambda>i. pcAddress i = pc s) (instructions s) = None"
      by (simp add: reentryCondition_def findIndex_None_list_ex)
    with None show ?thesis by (simp add: selectIssue_def)
  qed
  show "length (instructions (issue s)) = length (instructions s)"
  proof (cases "branchStall s")
    case True
    then show ?thesis by (simp add: issue_def)
  next
    case False
    obtain s1 ko where sel: "selectIssue s = (s1, ko)" by (cases "selectIssue s")
    from length_instructions_issue [OF sel False] same [OF False] sel show ?thesis by simp
  qed
  show "instructions (fst (selectIssue s)) = instructions s" if "\<not> branchStall s"
    using same that .
qed

text \<open>
  Both cases of the re-entry: the issue phase of cycle 3 of the loop appends an
  instance, the issue phase at the initial state appends none.
\<close>

theorem loop_reentry_instance_witness:
  "reentryCondition (beforeIssue (loopState 2) DEFAULT_CONFIG (snd (projr (parseAssembly loopProgram)))) \<and>
   length (instructions (issue (beforeIssue (loopState 2) DEFAULT_CONFIG (snd (projr (parseAssembly loopProgram)))))) =
     Suc (length (instructions (beforeIssue (loopState 2) DEFAULT_CONFIG (snd (projr (parseAssembly loopProgram)))))) \<and>
   \<not> reentryCondition (loopState 0) \<and>
   length (instructions (issue (loopState 0))) = length (instructions (loopState 0))"
proof -
  have a: "reentryCondition (beforeIssue (loopState 2) DEFAULT_CONFIG (snd (projr (parseAssembly loopProgram))))"
    by code_simp
  have b: "\<not> reentryCondition (loopState 0)" by code_simp
  from a b
    loop_reentry_instance [of "beforeIssue (loopState 2) DEFAULT_CONFIG (snd (projr (parseAssembly loopProgram)))"]
    loop_reentry_instance [of "loopState 0"]
  show ?thesis by blast
qed

subsection \<open>Memory disambiguation and effective address\<close>

lemma memoryHazard_iff:
  "memoryHazard s inst opType (Some ea) checkRS \<longleftrightarrow>
     busy checkRS \<and> (\<exists>cid. instId checkRS = Some cid \<and> cid < inst_id inst) \<and>
     rs_a checkRS = Some ea \<and>
     ((opType = LOAD \<and> boundOpType s checkRS = STORE) \<or>
      (opType = STORE \<and> (boundOpType s checkRS = LOAD \<or> boundOpType s checkRS = STORE)))"
  by (auto simp: memoryHazard_def boundOpType_def Let_def)

lemma addressHazardCheck_fst:
  "getOpType (op inst) = LOAD \<or> getOpType (op inst) = STORE \<Longrightarrow>
   fst (addressHazardCheck s inst) = fst (resolveAddress s inst)"
  by (cases "resolveAddress s inst")
     (auto simp: addressHazardCheck_def Let_def split: bool.splits)

lemma addressHazardCheck_stall:
  "getOpType (op inst) = LOAD \<or> getOpType (op inst) = STORE \<Longrightarrow>
   snd (resolveAddress s inst) \<Longrightarrow> snd (addressHazardCheck s inst)"
  by (cases "resolveAddress s inst")
     (auto simp: addressHazardCheck_def Let_def split: bool.splits)

lemma issue_stalled:
  "\<not> branchStall s0 \<Longrightarrow> selectIssue s0 = (s, Some k) \<Longrightarrow>
   snd (addressHazardCheck s (instructions s ! k)) \<Longrightarrow> issue s0 = s"
  by (cases "addressHazardCheck s (instructions s ! k)") (simp add: issue_def)

lemma issue_not_stalled:
  "\<not> branchStall s0 \<Longrightarrow> selectIssue s0 = (s, Some k) \<Longrightarrow>
   \<not> snd (addressHazardCheck s (instructions s ! k)) \<Longrightarrow>
   issue s0 = allocateAndIssue k (fst (addressHazardCheck s (instructions s ! k))) s"
  by (cases "addressHazardCheck s (instructions s ! k)") (simp add: issue_def)

lemma allocateAndIssue_station:
  assumes "allocateAndIssue k ea s \<noteq> s"
  shows "\<exists>rsIndex<length (reservationStations s).
           busy (reservationStations (allocateAndIssue k ea s) ! rsIndex) \<and>
           \<not> busy (reservationStations s ! rsIndex) \<and>
           instId (reservationStations (allocateAndIssue k ea s) ! rsIndex) = Some (inst_id (instructions s ! k)) \<and>
           (getOpType (op (instructions s ! k)) = LOAD \<or> getOpType (op (instructions s ! k)) = STORE \<longrightarrow>
              rs_a (reservationStations (allocateAndIssue k ea s) ! rsIndex) = ea)"
proof (cases "findIndex (\<lambda>r. rs_type r = getRSType (getOpType (op (instructions s ! k))) \<and> \<not> busy r)
    (reservationStations s)")
  case None
  with assms show ?thesis by (simp add: allocateAndIssue_def Let_def)
next
  case (Some rsIndex)
  from findIndex_Some [OF Some] have "rsIndex < length (reservationStations s)"
    "\<not> busy (reservationStations s ! rsIndex)" by simp_all
  then show ?thesis
    by (intro exI [of _ rsIndex]) (auto simp: allocateAndIssue_def Let_def Some case_prod_unfold)
qed

lemma checkMemoryHazards_iff:
  "checkMemoryHazards s inst (getOpType (op inst)) (Some ea) \<longleftrightarrow> addressConflict s inst ea"
  unfolding checkMemoryHazards_def fold_stall memoryHazard_iff addressConflict_def
  by (auto split: option.splits)

lemma noFreeStation_findIndex:
  "noFreeStation s inst \<longleftrightarrow>
     findIndex (\<lambda>r. rs_type r = getRSType (getOpType (op inst)) \<and> \<not> busy r) (reservationStations s) = None"
  by (auto simp: noFreeStation_def findIndex_None)

lemma allocateAndIssue_none:
  "noFreeStation s (instructions s ! k) \<Longrightarrow> allocateAndIssue k ea s = s"
  by (simp add: noFreeStation_findIndex allocateAndIssue_def Let_def)

lemma allocateAndIssue_some:
  assumes "\<not> noFreeStation s (instructions s ! k)" and "k < length (instructions s)"
  shows "issueCycle (instructions (allocateAndIssue k ea s) ! k) = Some (cycle s)"
    and "pc (allocateAndIssue k ea s) = pc s + 4"
  using assms
  by (auto simp: noFreeStation_findIndex allocateAndIssue_def Let_def case_prod_unfold)

text \<open>
  C4, as stated, fails. In the run of the four loads under the default configuration the
  first three loads occupy the three LOAD stations, with the addresses 0, 8 and 16. In
  the issue phase of cycle 4 the fourth load is the candidate: its address 24 is
  resolved and no busy station holds it, yet the load does not issue. Its issue cycle is
  still null after cycle 13; it issues in cycle 14, when the first load has left its
  station.
\<close>

theorem memory_disambiguation_counterexample:
  "snd (selectIssue (beforeIssue (fourLoadsState 3) DEFAULT_CONFIG (snd (projr (parseAssembly fourLoadsProgram))))) = Some 3 \<and>
   raw (instructions (beforeIssue (fourLoadsState 3) DEFAULT_CONFIG (snd (projr (parseAssembly fourLoadsProgram)))) ! 3) = ''L.D F6, 24(R1)'' \<and>
   resolveAddress (beforeIssue (fourLoadsState 3) DEFAULT_CONFIG (snd (projr (parseAssembly fourLoadsProgram))))
     (instructions (beforeIssue (fourLoadsState 3) DEFAULT_CONFIG (snd (projr (parseAssembly fourLoadsProgram)))) ! 3) = (Some 24, False) \<and>
   map rs_a (filter busy (reservationStations (beforeIssue (fourLoadsState 3) DEFAULT_CONFIG (snd (projr (parseAssembly fourLoadsProgram)))))) =
     [Some 0, Some 8, Some 16] \<and>
   \<not> addressConflict (beforeIssue (fourLoadsState 3) DEFAULT_CONFIG (snd (projr (parseAssembly fourLoadsProgram))))
     (instructions (beforeIssue (fourLoadsState 3) DEFAULT_CONFIG (snd (projr (parseAssembly fourLoadsProgram)))) ! 3) 24 \<and>
   map issueCycle (instructions (fourLoadsState 3)) = [Some 1, Some 2, Some 3, None] \<and>
   map issueCycle (instructions (fourLoadsState 4)) = [Some 1, Some 2, Some 3, None] \<and>
   map issueCycle (instructions (fourLoadsState 13)) = [Some 1, Some 2, Some 3, None] \<and>
   map issueCycle (instructions (fourLoadsState 14)) = [Some 1, Some 2, Some 3, Some 14]"
  by code_simp

text \<open>
  C4 (amended). At issue of a LOAD or STORE whose effective address is resolved, the
  issue stalls if and only if either some busy reservation station bound to an
  instruction of smaller identity holds the same resolved address, the candidate being a
  LOAD and the earlier instruction a STORE, or the candidate a STORE and the earlier
  instruction a LOAD or a STORE, or no reservation station of the candidate's class is
  free. The first condition alone is the flag \<open>stallIssue\<close> of the engine after the
  disambiguation loop. When the issue stalls, the phase leaves the state as the selection
  of the candidate left it and the issue cycle of the candidate stays null; otherwise
  the candidate issues in this cycle, with that address.
\<close>

theorem memory_disambiguation_stall:
  assumes "getOpType (op inst) = LOAD \<or> getOpType (op inst) = STORE"
    and "resolveAddress s inst = (Some ea, False)"
  shows "(snd (addressHazardCheck s inst) \<longleftrightarrow> addressConflict s inst ea) \<and>
         fst (addressHazardCheck s inst) = Some ea \<and>
         (\<not> branchStall s0 \<and> selectIssue s0 = (s, Some k) \<and> inst = instructions s ! k \<longrightarrow>
            (issue s0 = s \<longleftrightarrow> addressConflict s inst ea \<or> noFreeStation s inst) \<and>
            (issueCycle (instructions (issue s0) ! k) = None \<longleftrightarrow>
               addressConflict s inst ea \<or> noFreeStation s inst) \<and>
            (\<not> (addressConflict s inst ea \<or> noFreeStation s inst) \<longrightarrow>
               issue s0 = allocateAndIssue k (Some ea) s \<and>
               issueCycle (instructions (issue s0) ! k) = Some (cycle s0) \<and>
               pc (issue s0) = pc s0 + 4))"
proof -
  have ahc: "addressHazardCheck s inst = (Some ea, addressConflict s inst ea)"
    using assms by (auto simp: addressHazardCheck_def Let_def checkMemoryHazards_iff)
  have iss: "(issue s0 = s \<longleftrightarrow> addressConflict s inst ea \<or> noFreeStation s inst) \<and>
            (issueCycle (instructions (issue s0) ! k) = None \<longleftrightarrow>
               addressConflict s inst ea \<or> noFreeStation s inst) \<and>
            (\<not> (addressConflict s inst ea \<or> noFreeStation s inst) \<longrightarrow>
               issue s0 = allocateAndIssue k (Some ea) s \<and>
               issueCycle (instructions (issue s0) ! k) = Some (cycle s0) \<and>
               pc (issue s0) = pc s0 + 4)"
    if h: "\<not> branchStall s0 \<and> selectIssue s0 = (s, Some k) \<and> inst = instructions s ! k"
  proof -
    from h have a: "\<not> branchStall s0" "selectIssue s0 = (s, Some k)" "instructions s ! k = inst"
      by simp_all
    note fr = selectIssue_frame [OF a(2)]
    note cand = selectIssue_candidate [OF a(2)]
    have eq: "issue s0 = (if addressConflict s inst ea then s else allocateAndIssue k (Some ea) s)"
      by (simp add: issue_def a ahc)
    show ?thesis
    proof (cases "addressConflict s inst ea")
      case True
      with eq cand show ?thesis by simp
    next
      case nc: False
      show ?thesis
      proof (cases "noFreeStation s inst")
        case True
        with allocateAndIssue_none [of s k "Some ea"] a(3) have "allocateAndIssue k (Some ea) s = s"
          by simp
        with eq nc True cand show ?thesis by simp
      next
        case False
        with a(3) have nf: "\<not> noFreeStation s (instructions s ! k)" by simp
        note al = allocateAndIssue_some [OF nf cand(1), of "Some ea"]
        from al(2) have "allocateAndIssue k (Some ea) s \<noteq> s" by auto
        with eq nc False al fr show ?thesis by simp
      qed
    qed
  qed
  have c1: "snd (addressHazardCheck s inst) \<longleftrightarrow> addressConflict s inst ea" by (simp add: ahc)
  have c2: "fst (addressHazardCheck s inst) = Some ea" by (simp add: ahc)
  from c1 c2 iss show ?thesis by blast
qed

text \<open>
  The load behind the store to the same address stalls on the conflict; the fourth of
  the four loads stalls for want of a station; the first load of the loop issues in
  cycle 1.
\<close>

theorem memory_disambiguation_stall_witness:
  "resolveAddress (beforeIssue (storeLoadState 1) DEFAULT_CONFIG (snd (projr (parseAssembly storeLoadProgram))))
     (instructions (beforeIssue (storeLoadState 1) DEFAULT_CONFIG (snd (projr (parseAssembly storeLoadProgram)))) ! 1) = (Some 0, False) \<and>
   addressConflict (beforeIssue (storeLoadState 1) DEFAULT_CONFIG (snd (projr (parseAssembly storeLoadProgram))))
     (instructions (beforeIssue (storeLoadState 1) DEFAULT_CONFIG (snd (projr (parseAssembly storeLoadProgram)))) ! 1) 0 \<and>
   snd (addressHazardCheck (beforeIssue (storeLoadState 1) DEFAULT_CONFIG (snd (projr (parseAssembly storeLoadProgram))))
     (instructions (beforeIssue (storeLoadState 1) DEFAULT_CONFIG (snd (projr (parseAssembly storeLoadProgram)))) ! 1)) \<and>
   issue (beforeIssue (storeLoadState 1) DEFAULT_CONFIG (snd (projr (parseAssembly storeLoadProgram)))) =
     beforeIssue (storeLoadState 1) DEFAULT_CONFIG (snd (projr (parseAssembly storeLoadProgram))) \<and>
   resolveAddress (beforeIssue (fourLoadsState 3) DEFAULT_CONFIG (snd (projr (parseAssembly fourLoadsProgram))))
     (instructions (beforeIssue (fourLoadsState 3) DEFAULT_CONFIG (snd (projr (parseAssembly fourLoadsProgram)))) ! 3) = (Some 24, False) \<and>
   \<not> addressConflict (beforeIssue (fourLoadsState 3) DEFAULT_CONFIG (snd (projr (parseAssembly fourLoadsProgram))))
     (instructions (beforeIssue (fourLoadsState 3) DEFAULT_CONFIG (snd (projr (parseAssembly fourLoadsProgram)))) ! 3) 24 \<and>
   noFreeStation (beforeIssue (fourLoadsState 3) DEFAULT_CONFIG (snd (projr (parseAssembly fourLoadsProgram))))
     (instructions (beforeIssue (fourLoadsState 3) DEFAULT_CONFIG (snd (projr (parseAssembly fourLoadsProgram)))) ! 3) \<and>
   issue (beforeIssue (fourLoadsState 3) DEFAULT_CONFIG (snd (projr (parseAssembly fourLoadsProgram)))) =
     beforeIssue (fourLoadsState 3) DEFAULT_CONFIG (snd (projr (parseAssembly fourLoadsProgram))) \<and>
   resolveAddress (beforeIssue (loopState 0) DEFAULT_CONFIG (snd (projr (parseAssembly loopProgram))))
     (instructions (beforeIssue (loopState 0) DEFAULT_CONFIG (snd (projr (parseAssembly loopProgram)))) ! 0) = (Some 8, False) \<and>
   \<not> addressConflict (beforeIssue (loopState 0) DEFAULT_CONFIG (snd (projr (parseAssembly loopProgram))))
     (instructions (beforeIssue (loopState 0) DEFAULT_CONFIG (snd (projr (parseAssembly loopProgram)))) ! 0) 8 \<and>
   \<not> noFreeStation (beforeIssue (loopState 0) DEFAULT_CONFIG (snd (projr (parseAssembly loopProgram))))
     (instructions (beforeIssue (loopState 0) DEFAULT_CONFIG (snd (projr (parseAssembly loopProgram)))) ! 0) \<and>
   issueCycle (instructions (issue (beforeIssue (loopState 0) DEFAULT_CONFIG (snd (projr (parseAssembly loopProgram))))) ! 0) = Some 1 \<and>
   pc (issue (beforeIssue (loopState 0) DEFAULT_CONFIG (snd (projr (parseAssembly loopProgram))))) = 4"
proof -
  define sa where "sa = beforeIssue (storeLoadState 1) DEFAULT_CONFIG (snd (projr (parseAssembly storeLoadProgram)))"
  define sb where "sb = beforeIssue (fourLoadsState 3) DEFAULT_CONFIG (snd (projr (parseAssembly fourLoadsProgram)))"
  define sc where "sc = beforeIssue (loopState 0) DEFAULT_CONFIG (snd (projr (parseAssembly loopProgram)))"
  have sel: "selectIssue s0 = (s0, Some k)"
    if "findIndex (\<lambda>i. pcAddress i = pc s0 \<and> issueCycle i = None) (instructions s0) = Some k" for s0 k
    using that by (simp add: selectIssue_def)
  \<comment> \<open>the load behind the store to the same address\<close>
  have a1: "getOpType (op (instructions sa ! 1)) = LOAD \<or> getOpType (op (instructions sa ! 1)) = STORE"
    unfolding sa_def by code_simp
  have a2: "resolveAddress sa (instructions sa ! 1) = (Some 0, False)" unfolding sa_def by code_simp
  have a3: "\<not> branchStall sa" unfolding sa_def by code_simp
  have a4: "findIndex (\<lambda>i. pcAddress i = pc sa \<and> issueCycle i = None) (instructions sa) = Some 1"
    unfolding sa_def by code_simp
  have a5: "addressConflict sa (instructions sa ! 1) 0" unfolding sa_def by code_simp
  note ta = memory_disambiguation_stall [OF a1 a2, where ?s0.0 = sa and k = 1]
  from ta a5 have ra1: "snd (addressHazardCheck sa (instructions sa ! 1))" by blast
  from ta a3 sel [OF a4] a5 have ra2: "issue sa = sa" by blast
  \<comment> \<open>the fourth load: no conflict, no free station\<close>
  have b1: "getOpType (op (instructions sb ! 3)) = LOAD \<or> getOpType (op (instructions sb ! 3)) = STORE"
    unfolding sb_def by code_simp
  have b2: "resolveAddress sb (instructions sb ! 3) = (Some 24, False)" unfolding sb_def by code_simp
  have b3: "\<not> branchStall sb" unfolding sb_def by code_simp
  have b4: "findIndex (\<lambda>i. pcAddress i = pc sb \<and> issueCycle i = None) (instructions sb) = Some 3"
    unfolding sb_def by code_simp
  have b5: "\<not> addressConflict sb (instructions sb ! 3) 24" unfolding sb_def by code_simp
  have b6: "noFreeStation sb (instructions sb ! 3)" unfolding sb_def by code_simp
  note tb = memory_disambiguation_stall [OF b1 b2, where ?s0.0 = sb and k = 3]
  from tb b3 sel [OF b4] b6 have rb: "issue sb = sb" by blast
  \<comment> \<open>the first load of the loop: no conflict and a free station\<close>
  have c1: "getOpType (op (instructions sc ! 0)) = LOAD \<or> getOpType (op (instructions sc ! 0)) = STORE"
    unfolding sc_def by code_simp
  have c2: "resolveAddress sc (instructions sc ! 0) = (Some 8, False)" unfolding sc_def by code_simp
  have c3: "\<not> branchStall sc" unfolding sc_def by code_simp
  have c4: "findIndex (\<lambda>i. pcAddress i = pc sc \<and> issueCycle i = None) (instructions sc) = Some 0"
    unfolding sc_def by code_simp
  have c5: "\<not> addressConflict sc (instructions sc ! 0) 8" unfolding sc_def by code_simp
  have c6: "\<not> noFreeStation sc (instructions sc ! 0)" unfolding sc_def by code_simp
  have c7: "cycle sc = 1" "pc sc = 0" unfolding sc_def by code_simp+
  note tc = memory_disambiguation_stall [OF c1 c2, where ?s0.0 = sc and k = 0]
  from tc c3 sel [OF c4] c5 c6
  have "issueCycle (instructions (issue sc) ! 0) = Some (cycle sc) \<and> pc (issue sc) = pc sc + 4"
    by blast
  with c7 have rc: "issueCycle (instructions (issue sc) ! 0) = Some 1" "pc (issue sc) = 4"
    by simp_all
  from a2 a5 ra1 ra2 b2 b5 b6 rb c2 c5 c6 rc show ?thesis
    unfolding sa_def sb_def sc_def by blast
qed

text \<open>
  C5. When a LOAD or STORE is considered for issue: if its base register (src1)
  carries a tag and the CDB of this cycle broadcasts that tag, the effective address is
  the CDB value plus the immediate offset; if the base register carries a tag that the
  CDB is not broadcasting, the instruction does not issue this cycle (its issue cycle
  stays null, the program counter and the stations are unchanged); if the base register
  has no tag, the effective address is the register's value plus the offset. Whenever
  the instruction does issue, the address slot of its station holds the effective
  address.
\<close>

theorem base_register_address:
  assumes "\<not> branchStall s0" and "selectIssue s0 = (s, Some k)" and "inst = instructions s ! k"
    and "getOpType (op inst) = LOAD \<or> getOpType (op inst) = STORE"
  shows "(map_of (registers s0) (src1 inst) = Some r \<and> qi r = Some t \<and> cdb s0 = Some (t, v) \<longrightarrow>
            fst (addressHazardCheck s inst) = Some (v + of_int (immediate inst))) \<and>
         (map_of (registers s0) (src1 inst) = Some r \<and> qi r = Some t \<and> (\<forall>w. cdb s0 \<noteq> Some (t, w)) \<longrightarrow>
            issue s0 = s \<and> issueCycle (instructions (issue s0) ! k) = None \<and>
            pc (issue s0) = pc s0 \<and> reservationStations (issue s0) = reservationStations s0) \<and>
         (map_of (registers s0) (src1 inst) = Some r \<and> qi r = None \<longrightarrow>
            fst (addressHazardCheck s inst) = Some (reg_value r + of_int (immediate inst))) \<and>
         (issue s0 \<noteq> s \<longrightarrow>
            (\<exists>rsIndex<length (reservationStations s0).
               busy (reservationStations (issue s0) ! rsIndex) \<and>
               \<not> busy (reservationStations s0 ! rsIndex) \<and>
               instId (reservationStations (issue s0) ! rsIndex) = Some (inst_id inst) \<and>
               rs_a (reservationStations (issue s0) ! rsIndex) = fst (addressHazardCheck s inst)))"
proof -
  note fr = selectIssue_frame [OF assms(2)]
  note cand = selectIssue_candidate [OF assms(2)]
  have ea: "fst (addressHazardCheck s inst) = fst (resolveAddress s inst)"
    using assms(4) by (rule addressHazardCheck_fst)
  have p1: "fst (addressHazardCheck s inst) = Some (v + of_int (immediate inst))"
    if "map_of (registers s0) (src1 inst) = Some r \<and> qi r = Some t \<and> cdb s0 = Some (t, v)"
    using that by (simp add: ea resolveAddress_def fr Let_def)
  have p2: "issue s0 = s \<and> issueCycle (instructions (issue s0) ! k) = None \<and>
            pc (issue s0) = pc s0 \<and> reservationStations (issue s0) = reservationStations s0"
    if h: "map_of (registers s0) (src1 inst) = Some r \<and> qi r = Some t \<and> (\<forall>w. cdb s0 \<noteq> Some (t, w))"
  proof -
    have "snd (resolveAddress s inst)"
      using h by (auto simp: resolveAddress_def fr Let_def split: option.splits)
    then have "snd (addressHazardCheck s (instructions s ! k))"
      using assms(3,4) addressHazardCheck_stall by simp
    from issue_stalled [OF assms(1,2) this] have "issue s0 = s" .
    then show ?thesis using cand fr by simp
  qed
  have p3: "fst (addressHazardCheck s inst) = Some (reg_value r + of_int (immediate inst))"
    if "map_of (registers s0) (src1 inst) = Some r \<and> qi r = None"
    using that by (simp add: ea resolveAddress_def fr Let_def)
  have p4: "\<exists>rsIndex<length (reservationStations s0).
               busy (reservationStations (issue s0) ! rsIndex) \<and>
               \<not> busy (reservationStations s0 ! rsIndex) \<and>
               instId (reservationStations (issue s0) ! rsIndex) = Some (inst_id inst) \<and>
               rs_a (reservationStations (issue s0) ! rsIndex) = fst (addressHazardCheck s inst)"
    if ne: "issue s0 \<noteq> s"
  proof -
    have ns: "\<not> snd (addressHazardCheck s (instructions s ! k))"
      using issue_stalled [OF assms(1,2)] ne by blast
    note eq = issue_not_stalled [OF assms(1,2) ns]
    with ne have "allocateAndIssue k (fst (addressHazardCheck s (instructions s ! k))) s \<noteq> s" by simp
    from allocateAndIssue_station [OF this] show ?thesis
      using assms(3,4) by (auto simp: eq fr)
  qed
  from p1 p2 p3 p4 show ?thesis by blast
qed

text \<open>
  The three cases of the base register: tagged with the tag on the bus, tagged with
  the bus silent, and without a tag; in the last the load issues and its station holds
  the address.
\<close>

theorem base_register_address_witness:
  "qi (the (map_of (registers forwardState) ''R1'')) = Some ''I1'' \<and>
   cdb forwardState = Some (''I1'', 24) \<and>
   fst (addressHazardCheck (fst (selectIssue forwardState))
          (instructions (fst (selectIssue forwardState)) ! 1)) = Some 24 \<and>
   qi (the (map_of (registers (beforeIssue (baseState 1) DEFAULT_CONFIG (snd (projr (parseAssembly baseProgram))))) ''R1''))
     = Some ''I1'' \<and>
   cdb (beforeIssue (baseState 1) DEFAULT_CONFIG (snd (projr (parseAssembly baseProgram)))) = None \<and>
   issueCycle (instructions (issue (beforeIssue (baseState 1) DEFAULT_CONFIG (snd (projr (parseAssembly baseProgram))))) ! 1) = None \<and>
   qi (the (map_of (registers (loopState 0)) ''R1'')) = None \<and>
   fst (addressHazardCheck (fst (selectIssue (loopState 0)))
          (instructions (fst (selectIssue (loopState 0))) ! 0)) = Some 8 \<and>
   (\<exists>rsIndex<length (reservationStations (loopState 0)).
      busy (reservationStations (issue (loopState 0)) ! rsIndex) \<and>
      \<not> busy (reservationStations (loopState 0) ! rsIndex) \<and>
      instId (reservationStations (issue (loopState 0)) ! rsIndex) = Some 0 \<and>
      rs_a (reservationStations (issue (loopState 0)) ! rsIndex) = Some 8)"
proof -
  define sW where "sW = beforeIssue (baseState 1) DEFAULT_CONFIG (snd (projr (parseAssembly baseProgram)))"
  define tagged where "tagged = \<lparr>reg_name = ''R1'', reg_value = 0, qi = Some ''I1''\<rparr>"
  define plain where "plain = \<lparr>reg_name = ''R1'', reg_value = 8, qi = None :: string option\<rparr>"
  have sel: "selectIssue s0 = (fst (selectIssue s0), Some k)" if "snd (selectIssue s0) = Some k" for s0 k
    using that by (simp add: prod_eq_iff)
  \<comment> \<open>base register tagged, tag on the bus\<close>
  have f1: "\<not> branchStall forwardState" by code_simp
  have f2: "snd (selectIssue forwardState) = Some 1" by code_simp
  have f3: "getOpType (op (instructions (fst (selectIssue forwardState)) ! 1)) = LOAD \<or>
            getOpType (op (instructions (fst (selectIssue forwardState)) ! 1)) = STORE" by code_simp
  have f4: "map_of (registers forwardState) (src1 (instructions (fst (selectIssue forwardState)) ! 1)) =
              Some tagged" unfolding tagged_def by code_simp
  have f5: "cdb forwardState = Some (''I1'', 24)" by code_simp
  have f6: "immediate (instructions (fst (selectIssue forwardState)) ! 1) = 0" by code_simp
  have f7: "qi tagged = Some ''I1''" by (simp add: tagged_def)
  note t1 = base_register_address [OF f1 sel [OF f2] refl f3, of tagged "''I1''" 24, THEN conjunct1, rule_format]
  from t1 [OF conjI [OF f4 conjI [OF f7 f5]]] f6
  have r1: "fst (addressHazardCheck (fst (selectIssue forwardState))
          (instructions (fst (selectIssue forwardState)) ! 1)) = Some 24"
    by simp
  have q1: "qi (the (map_of (registers forwardState) ''R1'')) = Some ''I1''" by code_simp
  \<comment> \<open>base register tagged, bus silent\<close>
  have w1: "\<not> branchStall sW" unfolding sW_def by code_simp
  have w2: "snd (selectIssue sW) = Some 1" unfolding sW_def by code_simp
  have w3: "getOpType (op (instructions (fst (selectIssue sW)) ! 1)) = LOAD \<or>
            getOpType (op (instructions (fst (selectIssue sW)) ! 1)) = STORE" unfolding sW_def by code_simp
  have w4: "map_of (registers sW) (src1 (instructions (fst (selectIssue sW)) ! 1)) = Some tagged"
    unfolding sW_def tagged_def by code_simp
  have w5: "cdb sW = None" unfolding sW_def by code_simp
  then have w6: "\<forall>w. cdb sW \<noteq> Some (''I1'', w)" by simp
  note t2 = base_register_address [OF w1 sel [OF w2] refl w3, of tagged "''I1''",
      THEN conjunct2, THEN conjunct1, rule_format]
  from t2 [OF conjI [OF w4 conjI [OF f7 w6]]]
  have r2: "issueCycle (instructions (issue sW) ! 1) = None"
    by (rule conjunct1 [OF conjunct2])
  have q2: "qi (the (map_of (registers sW) ''R1'')) = Some ''I1''" unfolding sW_def by code_simp
  \<comment> \<open>base register without a tag\<close>
  have n1: "\<not> branchStall (loopState 0)" by code_simp
  have n2: "snd (selectIssue (loopState 0)) = Some 0" by code_simp
  have n3: "getOpType (op (instructions (fst (selectIssue (loopState 0))) ! 0)) = LOAD \<or>
            getOpType (op (instructions (fst (selectIssue (loopState 0))) ! 0)) = STORE" by code_simp
  have n4: "map_of (registers (loopState 0)) (src1 (instructions (fst (selectIssue (loopState 0))) ! 0)) =
              Some plain" unfolding plain_def by code_simp
  have n6: "immediate (instructions (fst (selectIssue (loopState 0))) ! 0) = 0" by code_simp
  have n7: "qi plain = None" by (simp add: plain_def)
  note t3 = base_register_address [OF n1 sel [OF n2] refl n3, of plain,
      THEN conjunct2, THEN conjunct2, THEN conjunct1, rule_format]
  from t3 [OF conjI [OF n4 n7]] n6
  have r3: "fst (addressHazardCheck (fst (selectIssue (loopState 0)))
          (instructions (fst (selectIssue (loopState 0))) ! 0)) = Some 8"
    by (simp add: plain_def)
  have q3: "qi (the (map_of (registers (loopState 0)) ''R1'')) = None" by code_simp
  \<comment> \<open>the issued load carries the address in its station\<close>
  have i1: "pc (issue (loopState 0)) \<noteq> pc (fst (selectIssue (loopState 0)))" by code_simp
  then have i2: "issue (loopState 0) \<noteq> fst (selectIssue (loopState 0))" by auto
  have i3: "inst_id (instructions (fst (selectIssue (loopState 0))) ! 0) = 0" by code_simp
  note t4 = base_register_address [OF n1 sel [OF n2] refl n3,
      THEN conjunct2, THEN conjunct2, THEN conjunct2, rule_format]
  from t4 [OF i2] r3 i3
  have r4: "\<exists>rsIndex<length (reservationStations (loopState 0)).
      busy (reservationStations (issue (loopState 0)) ! rsIndex) \<and>
      \<not> busy (reservationStations (loopState 0) ! rsIndex) \<and>
      instId (reservationStations (issue (loopState 0)) ! rsIndex) = Some 0 \<and>
      rs_a (reservationStations (issue (loopState 0)) ! rsIndex) = Some 8"
    by simp
  from r1 r2 r3 r4 q1 q2 q3 f5 w5 show ?thesis unfolding sW_def by simp
qed

subsection \<open>Reservation-station invariant\<close>

lemma rsInvariant_clearRS: "rsInvariant (clearRS r)"
  by (simp add: rsInvariant_def clearRS_def)

lemma rsInvariant_emptyRS: "rsInvariant (emptyRS ty i)"
  by (simp add: rsInvariant_def emptyRS_def)

lemma rsInvariant_timeLeft: "rsInvariant (r\<lparr>timeLeft := t\<rparr>) = rsInvariant r"
  by (cases "rs_op r") (simp_all add: rsInvariant_def)

lemma rsInvariant_result: "rsInvariant (r\<lparr>result := t\<rparr>) = rsInvariant r"
  by (cases "rs_op r") (simp_all add: rsInvariant_def)

lemma rsInvariant_broadcastRS: "rsInvariant r \<Longrightarrow> rsInvariant (broadcastRS t v r)"
  by (auto simp: rsInvariant_def broadcastRS_def Let_def split: option.splits if_splits)

lemma rsInvariant_initializeState:
  "list_all rsInvariant (reservationStations (initializeState insts config initialRegs))"
  by (auto simp: initializeState_def list_all_iff rsInvariant_emptyRS)

lemma rsInvariant_writeResult:
  assumes "list_all rsInvariant (reservationStations s)"
  shows "list_all rsInvariant (reservationStations (writeResult s))"
proof -
  have m: "list_all rsInvariant (map (broadcastRS t v) (reservationStations s))" for t v
    using assms by (simp add: list_all_iff rsInvariant_broadcastRS)
  show ?thesis
    by (auto simp: writeResult_def Let_def m assms list_all_update rsInvariant_clearRS
        split: list.splits option.splits)
qed

lemma rsInvariant_nth: "list_all P xs \<Longrightarrow> i < length xs \<Longrightarrow> P (xs ! i)"
  by (simp add: list_all_length)

lemma rsInvariant_setTimeLeft:
  "list_all rsInvariant (reservationStations s) \<Longrightarrow> idx < length (reservationStations s) \<Longrightarrow>
   list_all rsInvariant (reservationStations (setTimeLeft idx t s))"
  by (simp add: setTimeLeft_def list_all_update rsInvariant_timeLeft rsInvariant_nth)

lemma rsInvariant_startExecution:
  "list_all rsInvariant (reservationStations s) \<Longrightarrow> idx < length (reservationStations s) \<Longrightarrow>
   list_all rsInvariant (reservationStations (startExecution config idx k s))"
  by (simp add: startExecution_def Let_def rsInvariant_setTimeLeft)

lemma rsInvariant_decrementTimer:
  "list_all rsInvariant (reservationStations s) \<Longrightarrow> idx < length (reservationStations s) \<Longrightarrow>
   list_all rsInvariant (reservationStations (decrementTimer idx s))"
  by (simp add: decrementTimer_def Let_def rsInvariant_setTimeLeft)

lemma rsInvariant_finishExecution:
  "list_all rsInvariant (reservationStations s) \<Longrightarrow> idx < length (reservationStations s) \<Longrightarrow>
   list_all rsInvariant (reservationStations (finishExecution labels idx k s))"
  by (simp add: finishExecution_def Let_def resolveBranch_frame list_all_update
      rsInvariant_clearRS rsInvariant_result rsInvariant_nth)

lemma rsInvariant_executeRS:
  "list_all rsInvariant (reservationStations s) \<Longrightarrow> idx < length (reservationStations s) \<Longrightarrow>
   list_all rsInvariant (reservationStations (executeRS config labels idx s))"
  by (simp add: executeRS_def Let_def rsInvariant_finishExecution rsInvariant_decrementTimer
      rsInvariant_startExecution decrementTimer_frame startExecution_frame split: option.splits)

lemma rsInvariant_execute:
  assumes "list_all rsInvariant (reservationStations s)"
  shows "list_all rsInvariant (reservationStations (execute config labels s))"
proof -
  have "list_all rsInvariant (reservationStations (execute config labels s)) \<and>
        length (reservationStations (execute config labels s)) = length (reservationStations s)"
    unfolding execute_def
    by (rule fold_preserves [where P = "\<lambda>t. list_all rsInvariant (reservationStations t) \<and>
          length (reservationStations t) = length (reservationStations s)"])
       (simp_all add: assms rsInvariant_executeRS executeRS_frame)
  then show ?thesis by simp
qed

lemma resolveOperand_exactly_one:
  "(fst (resolveOperand s n) = None) \<noteq> (snd (resolveOperand s n) = None)"
  by (simp add: resolveOperand_def split: option.splits prod.splits)

lemma resolveOperand_one:
  "resolveOperand s n = (v, q) \<Longrightarrow> (v = None) \<noteq> (q = None)"
  using resolveOperand_exactly_one [of s n] by simp

lemma operand1_at_most_one:
  "operand1 s i = (v, q) \<Longrightarrow> v = None \<or> q = None"
  by (auto simp: operand1_def split: if_splits dest: resolveOperand_one)

lemma operand2_shape:
  "operand2 s i = (v, q) \<Longrightarrow>
     (v = None \<or> q = None) \<and>
     (getOpType (op i) = LOAD \<longrightarrow> v = None \<and> q = None) \<and>
     (getOpType (op i) \<noteq> LOAD \<and> getOpType (op i) \<noteq> BRANCH \<longrightarrow> (v = None) \<noteq> (q = None))"
  by (auto simp: operand2_def Let_def split: if_splits dest: resolveOperand_one)

lemma rsInvariant_allocateAndIssue:
  assumes "list_all rsInvariant (reservationStations s)"
  shows "list_all rsInvariant (reservationStations (allocateAndIssue k ea s))"
proof (cases "findIndex (\<lambda>r. rs_type r = getRSType (getOpType (op (instructions s ! k))) \<and> \<not> busy r)
    (reservationStations s)")
  case None
  with assms show ?thesis by (simp add: allocateAndIssue_def Let_def)
next
  case (Some rsIndex)
  obtain v1 q1 where o1: "operand1 s (instructions s ! k) = (v1, q1)"
    by (cases "operand1 s (instructions s ! k)")
  obtain v2 q2 where o2: "operand2 s (instructions s ! k) = (v2, q2)"
    by (cases "operand2 s (instructions s ! k)")
  from operand1_at_most_one [OF o1] operand2_shape [OF o2]
  have "rsInvariant ((reservationStations s ! rsIndex)\<lparr>busy := True,
          rs_op := Some (op (instructions s ! k)), instId := Some (inst_id (instructions s ! k)),
          vj := v1, vk := v2, qj := q1, qk := q2, rs_a := a, timeLeft := 0, result := None\<rparr>)" for a
    by (auto simp: rsInvariant_def)
  then show ?thesis
    using assms by (simp add: allocateAndIssue_def Let_def Some o1 o2 list_all_update)
qed

lemma rsInvariant_issue:
  assumes "list_all rsInvariant (reservationStations s)"
  shows "list_all rsInvariant (reservationStations (issue s))"
proof -
  obtain s1 ko where sel: "selectIssue s = (s1, ko)" by (cases "selectIssue s")
  have "list_all rsInvariant (reservationStations s1)"
    using assms selectIssue_frame [OF sel] by simp
  then show ?thesis
    using assms
    by (simp add: issue_def sel rsInvariant_allocateAndIssue split: option.splits prod.splits bool.splits)
qed

lemma rsInvariant_nextCycle:
  assumes inv: "list_all rsInvariant (reservationStations s)"
  shows "list_all rsInvariant (reservationStations (nextCycle s config labels))"
proof (cases "isFinished s")
  case True
  with inv show ?thesis by (simp add: nextCycle_def)
next
  case False
  have "list_all rsInvariant (reservationStations (s\<lparr>cycle := cycle s + 1, cdb := None\<rparr>))"
    using inv by simp
  then show ?thesis
    by (simp add: nextCycle_unfold [OF False] checkCompletion_frame rsInvariant_issue
        rsInvariant_execute rsInvariant_writeResult)
qed

text \<open>
  C6, as stated, fails. After the first step of the loop the station \<open>L1\<close> is busy with
  the load, and its second operand slot holds neither a value nor a tag.
\<close>

theorem operand_slot_counterexample:
  "busyOperands (loopState 1) = [(''L1'', Some ''L.D'', Some 8, None, None, None)]"
  by code_simp

text \<open>
  C6 (amended). After every step, every reservation station satisfies: it is busy
  exactly when it holds a bound instruction identity; when it is idle, neither operand
  slot holds a value or a tag; when it is busy, no operand slot holds both a value and a
  tag, the second slot of a LOAD holds neither, and the second slot of an instruction
  that is neither a LOAD nor a BRANCH holds exactly one of the two. The invariant holds
  at initialization, is kept by every step, and so holds along every run.
\<close>

theorem reservation_station_invariant:
  "list_all rsInvariant (reservationStations (initializeState insts config initialRegs)) \<and>
   (list_all rsInvariant (reservationStations s) \<longrightarrow>
      list_all rsInvariant (reservationStations (nextCycle s config labels))) \<and>
   list_all rsInvariant
     (reservationStations (steps n config labels (initializeState insts config initialRegs)))"
proof (intro conjI impI)
  show "list_all rsInvariant (reservationStations (initializeState insts config initialRegs))"
    by (rule rsInvariant_initializeState)
  show "list_all rsInvariant (reservationStations (nextCycle s config labels))"
    if "list_all rsInvariant (reservationStations s)"
    using that by (rule rsInvariant_nextCycle)
  show "list_all rsInvariant
     (reservationStations (steps n config labels (initializeState insts config initialRegs)))"
    by (induction n) (simp_all add: rsInvariant_initializeState rsInvariant_nextCycle)
qed

text \<open>
  The invariant at the initial state of the loop and after its first step, which
  occupies a station.
\<close>

theorem reservation_station_invariant_witness:
  "list_all rsInvariant (reservationStations (loopState 0)) \<and>
   list_all rsInvariant (reservationStations (loopState 1)) \<and>
   busyOperands (loopState 1) \<noteq> []"
proof -
  note t = reservation_station_invariant [where insts = "fst (projr (parseAssembly loopProgram))"
      and config = DEFAULT_CONFIG and initialRegs = "[(''F0'', 0), (''R1'', 8), (''R2'', 0)]"
      and s = "loopState 0" and labels = "snd (projr (parseAssembly loopProgram))"]
  from t have a: "list_all rsInvariant (reservationStations (loopState 0))"
    by (simp add: loopState_0)
  with t have b: "list_all rsInvariant (reservationStations (loopState (Suc 0)))"
    by (simp add: loopState_Suc)
  have c: "busyOperands (loopState 1) \<noteq> []" by code_simp
  from a b c show ?thesis by simp
qed

subsection \<open>Branch stall\<close>

lemma staticPart_eq:
  assumes "map staticPart xs = map staticPart ys"
  shows "length xs = length ys"
    and "i < length xs \<Longrightarrow> issueCycle (xs ! i) = issueCycle (ys ! i) \<and> op (xs ! i) = op (ys ! i)"
proof -
  show len: "length xs = length ys" using assms by (rule map_eq_imp_length_eq)
  assume i: "i < length xs"
  have "map staticPart xs ! i = map staticPart ys ! i" using assms by simp
  with i len have "staticPart (xs ! i) = staticPart (ys ! i)" by simp
  then show "issueCycle (xs ! i) = issueCycle (ys ! i) \<and> op (xs ! i) = op (ys ! i)"
    by (simp add: staticPart_def)
qed

lemma allocateAndIssue_instructions:
  "allocateAndIssue k ea s = s \<or>
   (instructions (allocateAndIssue k ea s) =
      (instructions s)[k := (instructions s ! k)\<lparr>issueCycle := Some (cycle s)\<rparr>] \<and>
    branchStall (allocateAndIssue k ea s) =
      (getOpType (op (instructions s ! k)) = BRANCH \<or> branchStall s))"
  by (simp add: allocateAndIssue_def Let_def case_prod_unfold split: option.splits)

lemma issue_effect:
  "\<exists>ins. (ins = instructions sE \<or> (\<exists>c. ins = instructions sE @ [c] \<and> issueCycle c = None)) \<and>
     (instructions (issue sE) = ins \<or>
      (\<exists>k<length ins.
         instructions (issue sE) = ins[k := (ins ! k)\<lparr>issueCycle := Some (cycle sE)\<rparr>] \<and>
         (branchStall (issue sE) \<longrightarrow> getOpType (op (ins ! k)) = BRANCH)))"
proof (cases "branchStall sE")
  case True
  then have "issue sE = sE" by (simp add: issue_def)
  then show ?thesis by auto
next
  case False
  obtain s1 ko where sel: "selectIssue sE = (s1, ko)" by (cases "selectIssue sE")
  note fr = selectIssue_frame [OF sel]
  from selectIssue_cases(2) [OF sel]
  have ins: "instructions s1 = instructions sE \<or>
             (\<exists>c. instructions s1 = instructions sE @ [c] \<and> issueCycle c = None)"
    by blast
  show ?thesis
  proof (cases ko)
    case None
    then have "issue sE = s1" using False sel by (simp add: issue_def)
    with ins show ?thesis by auto
  next
    case (Some k)
    from selectIssue_candidate(1) [OF sel [unfolded Some]] have k: "k < length (instructions s1)" .
    show ?thesis
    proof (cases "snd (addressHazardCheck s1 (instructions s1 ! k))")
      case True
      from issue_stalled [OF False sel [unfolded Some] True] ins show ?thesis by auto
    next
      case ns: False
      note eq = issue_not_stalled [OF False sel [unfolded Some] ns]
      from allocateAndIssue_instructions [of k "fst (addressHazardCheck s1 (instructions s1 ! k))" s1]
      have "issue sE = s1 \<or>
            (instructions (issue sE) =
               (instructions s1)[k := (instructions s1 ! k)\<lparr>issueCycle := Some (cycle sE)\<rparr>] \<and>
             (branchStall (issue sE) \<longrightarrow> getOpType (op (instructions s1 ! k)) = BRANCH))"
        using False by (auto simp: eq fr)
      with ins k show ?thesis by blast
    qed
  qed
qed

lemma issue_newly:
  assumes same: "map staticPart (instructions sE) = map staticPart (instructions s)"
    and j: "j < length (instructions (issue sE))"
    and changed: "issueCycle (instructions (issue sE) ! j) \<noteq>
                   (if j < length (instructions s) then issueCycle (instructions s ! j) else None)"
  shows "issueCycle (instructions (issue sE) ! j) = Some (cycle sE) \<and>
         (branchStall (issue sE) \<longrightarrow> getOpType (op (instructions (issue sE) ! j)) = BRANCH)"
proof -
  note len = staticPart_eq(1) [OF same]
  from issue_effect [of sE] obtain ins where
    ins: "ins = instructions sE \<or> (\<exists>c. ins = instructions sE @ [c] \<and> issueCycle c = None)" and
    iss: "instructions (issue sE) = ins \<or>
      (\<exists>k<length ins.
         instructions (issue sE) = ins[k := (ins ! k)\<lparr>issueCycle := Some (cycle sE)\<rparr>] \<and>
         (branchStall (issue sE) \<longrightarrow> getOpType (op (ins ! k)) = BRANCH))"
    by blast
  have old: "issueCycle (ins ! i) = (if i < length (instructions s) then issueCycle (instructions s ! i) else None)"
    if "i < length ins" for i
  proof (cases "i < length (instructions sE)")
    case True
    from staticPart_eq(2) [OF same True] ins True show ?thesis
      by (auto simp: len nth_append)
  next
    case False
    with ins that show ?thesis by (auto simp: len nth_append)
  qed
  from iss show ?thesis
  proof
    assume e: "instructions (issue sE) = ins"
    with j old [of j] changed show ?thesis by simp
  next
    assume "\<exists>k<length ins.
         instructions (issue sE) = ins[k := (ins ! k)\<lparr>issueCycle := Some (cycle sE)\<rparr>] \<and>
         (branchStall (issue sE) \<longrightarrow> getOpType (op (ins ! k)) = BRANCH)"
    then obtain k where k: "k < length ins"
      "instructions (issue sE) = ins[k := (ins ! k)\<lparr>issueCycle := Some (cycle sE)\<rparr>]"
      "branchStall (issue sE) \<longrightarrow> getOpType (op (ins ! k)) = BRANCH" by blast
    have jl: "j < length ins" using j k(2) by simp
    show ?thesis
    proof (cases "j = k")
      case True
      with k show ?thesis by simp
    next
      case False
      with k(2) jl have "instructions (issue sE) ! j = ins ! j" by simp
      with old [OF jl] changed show ?thesis by simp
    qed
  qed
qed

text \<open>
  C7, as stated, fails. The second step of the loop issues the branch: the resulting
  state has the branch-stall flag set, the cycle is 2, and the issue cycle of the branch
  went from null to 2 in that step.
\<close>

theorem branch_stall_counterexample:
  "cycle (loopState 2) = 2 \<and> branchStall (loopState 2) \<and>
   map issueCycle (instructions (loopState 1)) = [Some 1, None] \<and>
   map issueCycle (instructions (loopState 2)) = [Some 1, Some 2]"
  by code_simp

text \<open>
  C7 (amended). After every step, if the branch-stall flag is true in the resulting
  state, then every instruction whose issue cycle was set during that step (to the
  current cycle) is a BRANCH: the one whose issue set the flag. If the flag is set when
  the issue phase begins, the phase issues nothing. The flag is set at issue of a
  BRANCH, the issue of any other instruction leaves it as it is, and it is cleared when
  the branch produces its result in the execute phase.
\<close>

theorem branch_stall_issue:
  "(\<forall>k\<in>set (newlyIssued s (nextCycle s config labels)).
      issueCycle (instructions (nextCycle s config labels) ! k) = Some (cycle (nextCycle s config labels)) \<and>
      (branchStall (nextCycle s config labels) \<longrightarrow>
         getOpType (op (instructions (nextCycle s config labels) ! k)) = BRANCH)) \<and>
   (branchStall s1 \<longrightarrow> issue s1 = s1) \<and>
   (getOpType (op (instructions s1 ! k1)) = BRANCH \<and> allocateAndIssue k1 ea s1 \<noteq> s1 \<longrightarrow>
      branchStall (allocateAndIssue k1 ea s1)) \<and>
   (getOpType (op (instructions s1 ! k1)) \<noteq> BRANCH \<longrightarrow>
      branchStall (allocateAndIssue k1 ea s1) = branchStall s1) \<and>
   (getOpType (op (instructions s1 ! k1)) = BRANCH \<and> timeLeft (reservationStations s1 ! idx) = 0 \<and>
    execEndCycle (instructions s1 ! k1) = None \<longrightarrow>
      \<not> branchStall (finishExecution labels idx k1 s1))"
proof (intro conjI impI ballI)
  fix k assume k: "k \<in> set (newlyIssued s (nextCycle s config labels))"
  show "issueCycle (instructions (nextCycle s config labels) ! k) = Some (cycle (nextCycle s config labels))"
    and "branchStall (nextCycle s config labels) \<Longrightarrow>
      getOpType (op (instructions (nextCycle s config labels) ! k)) = BRANCH"
  proof (atomize (full), cases "isFinished s")
    case True
    with k show "issueCycle (instructions (nextCycle s config labels) ! k) = Some (cycle (nextCycle s config labels)) \<and>
      (branchStall (nextCycle s config labels) \<longrightarrow>
      getOpType (op (instructions (nextCycle s config labels) ! k)) = BRANCH)"
      by (simp add: nextCycle_def newlyIssued_def)
  next
    case False
    define sE where "sE = execute config labels (writeResult (s\<lparr>cycle := cycle s + 1, cdb := None\<rparr>))"
    have nc: "nextCycle s config labels = checkCompletion (issue sE)"
      by (simp add: nextCycle_unfold [OF False] sE_def)
    have same: "map staticPart (instructions sE) = map staticPart (instructions s)"
      by (simp add: sE_def execute_frame writeResult_frame)
    have cyc: "cycle (nextCycle s config labels) = cycle sE"
      by (simp add: nc checkCompletion_frame issue_frame)
    from k have j: "k < length (instructions (issue sE))"
      and ch: "issueCycle (instructions (issue sE) ! k) \<noteq>
                   (if k < length (instructions s) then issueCycle (instructions s ! k) else None)"
      by (simp_all add: newlyIssued_def nc checkCompletion_frame)
    from issue_newly [OF same j ch]
    show "issueCycle (instructions (nextCycle s config labels) ! k) = Some (cycle (nextCycle s config labels)) \<and>
      (branchStall (nextCycle s config labels) \<longrightarrow>
      getOpType (op (instructions (nextCycle s config labels) ! k)) = BRANCH)"
      by (simp add: cyc) (simp add: nc checkCompletion_frame)
  qed
next
  assume "branchStall s1"
  then show "issue s1 = s1" by (simp add: issue_def)
next
  assume "getOpType (op (instructions s1 ! k1)) = BRANCH \<and> allocateAndIssue k1 ea s1 \<noteq> s1"
  with allocateAndIssue_instructions [of k1 ea s1]
  show "branchStall (allocateAndIssue k1 ea s1)" by simp
next
  assume nb: "getOpType (op (instructions s1 ! k1)) \<noteq> BRANCH"
  from allocateAndIssue_instructions [of k1 ea s1]
  show "branchStall (allocateAndIssue k1 ea s1) = branchStall s1"
  proof
    assume "allocateAndIssue k1 ea s1 = s1"
    then show ?thesis by simp
  next
    assume "instructions (allocateAndIssue k1 ea s1) =
      (instructions s1)[k1 := (instructions s1 ! k1)\<lparr>issueCycle := Some (cycle s1)\<rparr>] \<and>
      branchStall (allocateAndIssue k1 ea s1) =
      (getOpType (op (instructions s1 ! k1)) = BRANCH \<or> branchStall s1)"
    with nb show ?thesis by simp
  qed
next
  assume "getOpType (op (instructions s1 ! k1)) = BRANCH \<and> timeLeft (reservationStations s1 ! idx) = 0 \<and>
    execEndCycle (instructions s1 ! k1) = None"
  then show "\<not> branchStall (finishExecution labels idx k1 s1)"
    by (simp add: finishExecution_def Let_def resolveBranch_frame)
qed

text \<open>
  The step of the loop that issues the branch, the issue phase on the stalled state
  that results, the issue of the branch and of the load taken alone, and the end of the
  execution of the branch in station \<open>I1\<close>.
\<close>

theorem branch_stall_issue_witness:
  "newlyIssued (loopState 1) (loopState 2) = [1] \<and>
   branchStall (loopState 2) \<and>
   issueCycle (instructions (loopState 2) ! 1) = Some (cycle (loopState 2)) \<and>
   getOpType (op (instructions (loopState 2) ! 1)) = BRANCH \<and>
   pc (issue (loopState 2)) = pc (loopState 2) \<and>
   \<not> branchStall (beforeIssue (loopState 1) DEFAULT_CONFIG (snd (projr (parseAssembly loopProgram)))) \<and>
   branchStall (allocateAndIssue 1 None (beforeIssue (loopState 1) DEFAULT_CONFIG (snd (projr (parseAssembly loopProgram))))) \<and>
   getOpType (op (instructions (loopState 0) ! 0)) = LOAD \<and>
   \<not> branchStall (allocateAndIssue 0 (Some 8) (loopState 0)) \<and>
   timeLeft (reservationStations
      (decrementTimer 11 (startExecution DEFAULT_CONFIG 11 1 (loopState 2))) ! 11) = 0 \<and>
   \<not> branchStall (finishExecution (snd (projr (parseAssembly loopProgram))) 11 1
      (decrementTimer 11 (startExecution DEFAULT_CONFIG 11 1 (loopState 2))))"
proof -
  define sB where "sB = beforeIssue (loopState 1) DEFAULT_CONFIG (snd (projr (parseAssembly loopProgram)))"
  define sX where "sX = decrementTimer 11 (startExecution DEFAULT_CONFIG 11 1 (loopState 2))"
  have two: "loopState 2 = nextCycle (loopState 1) DEFAULT_CONFIG (snd (projr (parseAssembly loopProgram)))"
    using loopState_Suc [of 1] by (simp add: numeral_2_eq_2)
  have a: "newlyIssued (loopState 1) (loopState 2) = [1]" by code_simp
  have b: "branchStall (loopState 2)" by code_simp
  note t = branch_stall_issue [where s = "loopState 1" and config = DEFAULT_CONFIG
      and labels = "snd (projr (parseAssembly loopProgram))", folded two]
  from t [where ?s1.0 = "loopState 2"] a b
  have c: "issueCycle (instructions (loopState 2) ! 1) = Some (cycle (loopState 2)) \<and>
    getOpType (op (instructions (loopState 2) ! 1)) = BRANCH"
    by simp
  from t [where ?s1.0 = "loopState 2"] b have d: "issue (loopState 2) = loopState 2" by blast
  \<comment> \<open>the flag is set at issue of the branch\<close>
  have e1: "getOpType (op (instructions sB ! 1)) = BRANCH" unfolding sB_def by code_simp
  have e2: "\<not> branchStall sB" unfolding sB_def by code_simp
  have e3: "pc (allocateAndIssue 1 None sB) \<noteq> pc sB" unfolding sB_def by code_simp
  then have e4: "allocateAndIssue 1 None sB \<noteq> sB" by auto
  from t [where ?s1.0 = sB and ?k1.0 = 1 and ea = None] e1 e4 have e: "branchStall (allocateAndIssue 1 None sB)" by blast
  \<comment> \<open>and left alone by the issue of a load\<close>
  have f1: "getOpType (op (instructions (loopState 0) ! 0)) = LOAD" by code_simp
  have f2: "\<not> branchStall (loopState 0)" by code_simp
  from f1 have "getOpType (op (instructions (loopState 0) ! 0)) \<noteq> BRANCH" by simp
  with t [where ?s1.0 = "loopState 0" and ?k1.0 = 0 and ea = "Some 8"] f2
  have f: "\<not> branchStall (allocateAndIssue 0 (Some 8) (loopState 0))" by blast
  \<comment> \<open>and cleared when the branch finishes executing\<close>
  have g1: "getOpType (op (instructions sX ! 1)) = BRANCH" unfolding sX_def by code_simp
  have g2: "timeLeft (reservationStations sX ! 11) = 0" unfolding sX_def by code_simp
  have g3: "execEndCycle (instructions sX ! 1) = None" unfolding sX_def by code_simp
  from t [where ?s1.0 = sX and ?k1.0 = 1 and idx = 11] g1 g2 g3
  have g: "\<not> branchStall (finishExecution (snd (projr (parseAssembly loopProgram))) 11 1 sX)" by blast
  from a b c d e2 e f1 f g2 g show ?thesis unfolding sB_def sX_def by simp
qed

subsection \<open>Cache model\<close>

lemma cache_cfg_withCache:
  "cache_cfg (withCache en bs cs) = \<lparr>enabled = en, blockSize = bs, cacheSize = cs, missPenalty = 10\<rparr>"
  by (simp add: withCache_def)

text \<open>
  C8. The capacity bound of the claim fails on the code. With a cache of 2 bytes and
  blocks of 4 bytes the capacity \<open>cacheSize \<div> blockSize\<close> is one half, and the first
  miss on the empty cache leaves one block in it: \<open>newCache[0] = newBlock\<close> extends the
  empty array. With a cache of 16 bytes and blocks of 3 bytes a cache of five blocks,
  within the capacity of five and a third, takes a sixth: the length is compared with
  the unrounded quotient.
\<close>

theorem accessCache_capacity_exceeded:
  "newCache (accessCache 0 (withCache True 4 2) [] 1) = [block 0 1] \<and>
   \<not> rat_of_nat (length (newCache (accessCache 0 (withCache True 4 2) [] 1)))
       \<le> rat_of_int (cacheSize (cache_cfg (withCache True 4 2)))
          / rat_of_int (blockSize (cache_cfg (withCache True 4 2))) \<and>
   rat_of_nat (length [block 0 1, block 1 2, block 2 3, block 3 4, block 4 5])
       \<le> rat_of_int (cacheSize (cache_cfg (withCache True 3 16)))
          / rat_of_int (blockSize (cache_cfg (withCache True 3 16))) \<and>
   newCache (accessCache 15 (withCache True 3 16)
       [block 0 1, block 1 2, block 2 3, block 3 4, block 4 5] 6) =
     [block 0 1, block 1 2, block 2 3, block 3 4, block 4 5, block 5 6] \<and>
   \<not> rat_of_nat (length (newCache (accessCache 15 (withCache True 3 16)
         [block 0 1, block 1 2, block 2 3, block 3 4, block 4 5] 6)))
       \<le> rat_of_int (cacheSize (cache_cfg (withCache True 3 16)))
          / rat_of_int (blockSize (cache_cfg (withCache True 3 16)))"
  by (simp add: accessCache_def cache_cfg_withCache block_def floor_numeral_div_rat)

subsection \<open>Parser\<close>


























text \<open>
  A label named \<open>hasOwnProperty\<close> shadows the method: the first instruction line that
  is not of the form \<open>OP REG, IMM(SRC)\<close> raises the \<open>TypeError\<close>; a line of that form
  does not reach the call.
\<close>

lemma parseAssembly_shadowed_method:
  "definesLabel ''hasOwnProperty: ADD R1, R2, R3'' ''hasOwnProperty'' \<and>
   map_sum id fst (parseAssembly ''hasOwnProperty: ADD R1, R2, R3'') = Inl TypeError \<and>
   map_sum id fst (parseAssembly ''hasOwnProperty: L.D F0, 0(R1)'') =
     Inr [\<lparr>inst_id = 0, raw = ''L.D F0, 0(R1)'', op = ''L.D'', dest = ''F0'', src1 = ''R1'',
           src2 = ''0'', immediate = 0, pcAddress = 0, issueCycle = None,
           execStartCycle = None, execEndCycle = None, writeCycle = None\<rparr>]"
  by code_simp




end
